theory Spec2Isabelle
  imports Main "HOL-Library.Word"
begin

unbundle bit_operations_syntax

chapter \<open>GOST R 34.11-2012 hash and GOST R 34.10 signatures of Gost.cpp\<close>

text \<open>
  A shallow embedding of \<^verbatim>\<open>src/Gost.cpp\<close>: the hash (block algebra, \<open>SPL\<close>, the
  cipher \<open>E\<close>, the compression step \<open>gN\<close>, the one-shot function \<open>H\<close> and the
  streaming context) and the signature engine (\<open>Sign\<close>, \<open>Verify\<close>,
  \<open>RecoverPublicKey\<close>) over a model of the OpenSSL big-number and curve calls the
  source makes.
\<close>

section \<open>The hash: data and tables\<close>

text \<open>
  \<open>uint8_t\<close> is \<open>8 word\<close>, \<open>uint64_t\<close> is \<open>64 word\<close>, \<open>uint32_t\<close> is \<open>32 word\<close>.
  The union \<open>GOST3411Block\<close> is its 64 bytes \<open>buf[0..63]\<close>, as a list; a well-formed
  block has length 64. \<open>size_t\<close> values are natural numbers.
\<close>

type_synonym byte = "8 word"
type_synonym GOST3411Block = "byte list"

text \<open>The tables \<open>sbox_\<close>, \<open>A_\<close> and \<open>C_\<close> of the source, entry by entry.\<close>

definition sbox_tbl :: "8 word list" where
  "sbox_tbl =
  [0xFC, 0xEE, 0xDD, 0x11, 0xCF, 0x6E, 0x31, 0x16, 0xFB, 0xC4, 0xFA, 0xDA, 0x23, 0xC5, 0x04, 0x4D,
   0xE9, 0x77, 0xF0, 0xDB, 0x93, 0x2E, 0x99, 0xBA, 0x17, 0x36, 0xF1, 0xBB, 0x14, 0xCD, 0x5F, 0xC1,
   0xF9, 0x18, 0x65, 0x5A, 0xE2, 0x5C, 0xEF, 0x21, 0x81, 0x1C, 0x3C, 0x42, 0x8B, 0x01, 0x8E, 0x4F,
   0x05, 0x84, 0x02, 0xAE, 0xE3, 0x6A, 0x8F, 0xA0, 0x06, 0x0B, 0xED, 0x98, 0x7F, 0xD4, 0xD3, 0x1F,
   0xEB, 0x34, 0x2C, 0x51, 0xEA, 0xC8, 0x48, 0xAB, 0xF2, 0x2A, 0x68, 0xA2, 0xFD, 0x3A, 0xCE, 0xCC,
   0xB5, 0x70, 0x0E, 0x56, 0x08, 0x0C, 0x76, 0x12, 0xBF, 0x72, 0x13, 0x47, 0x9C, 0xB7, 0x5D, 0x87,
   0x15, 0xA1, 0x96, 0x29, 0x10, 0x7B, 0x9A, 0xC7, 0xF3, 0x91, 0x78, 0x6F, 0x9D, 0x9E, 0xB2, 0xB1,
   0x32, 0x75, 0x19, 0x3D, 0xFF, 0x35, 0x8A, 0x7E, 0x6D, 0x54, 0xC6, 0x80, 0xC3, 0xBD, 0x0D, 0x57,
   0xDF, 0xF5, 0x24, 0xA9, 0x3E, 0xA8, 0x43, 0xC9, 0xD7, 0x79, 0xD6, 0xF6, 0x7C, 0x22, 0xB9, 0x03,
   0xE0, 0x0F, 0xEC, 0xDE, 0x7A, 0x94, 0xB0, 0xBC, 0xDC, 0xE8, 0x28, 0x50, 0x4E, 0x33, 0x0A, 0x4A,
   0xA7, 0x97, 0x60, 0x73, 0x1E, 0x00, 0x62, 0x44, 0x1A, 0xB8, 0x38, 0x82, 0x64, 0x9F, 0x26, 0x41,
   0xAD, 0x45, 0x46, 0x92, 0x27, 0x5E, 0x55, 0x2F, 0x8C, 0xA3, 0xA5, 0x7D, 0x69, 0xD5, 0x95, 0x3B,
   0x07, 0x58, 0xB3, 0x40, 0x86, 0xAC, 0x1D, 0xF7, 0x30, 0x37, 0x6B, 0xE4, 0x88, 0xD9, 0xE7, 0x89,
   0xE1, 0x1B, 0x83, 0x49, 0x4C, 0x3F, 0xF8, 0xFE, 0x8D, 0x53, 0xAA, 0x90, 0xCA, 0xD8, 0x85, 0x61,
   0x20, 0x71, 0x67, 0xA4, 0x2D, 0x2B, 0x09, 0x5B, 0xCB, 0x9B, 0x25, 0xD0, 0xBE, 0xE5, 0x6C, 0x52,
   0x59, 0xA6, 0x74, 0xD2, 0xE6, 0xF4, 0xB4, 0xC0, 0xD1, 0x66, 0xAF, 0xC2, 0x39, 0x4B, 0x63, 0xB6]"

definition A_tbl :: "64 word list" where
  "A_tbl =
  [0x8e20faa72ba0b470, 0x47107ddd9b505a38, 0xad08b0e0c3282d1c, 0xd8045870ef14980e,
   0x6c022c38f90a4c07, 0x3601161cf205268d, 0x1b8e0b0e798c13c8, 0x83478b07b2468764,
   0xa011d380818e8f40, 0x5086e740ce47c920, 0x2843fd2067adea10, 0x14aff010bdd87508,
   0x0ad97808d06cb404, 0x05e23c0468365a02, 0x8c711e02341b2d01, 0x46b60f011a83988e,
   0x90dab52a387ae76f, 0x486dd4151c3dfdb9, 0x24b86a840e90f0d2, 0x125c354207487869,
   0x092e94218d243cba, 0x8a174a9ec8121e5d, 0x4585254f64090fa0, 0xaccc9ca9328a8950,
   0x9d4df05d5f661451, 0xc0a878a0a1330aa6, 0x60543c50de970553, 0x302a1e286fc58ca7,
   0x18150f14b9ec46dd, 0x0c84890ad27623e0, 0x0642ca05693b9f70, 0x0321658cba93c138,
   0x86275df09ce8aaa8, 0x439da0784e745554, 0xafc0503c273aa42a, 0xd960281e9d1d5215,
   0xe230140fc0802984, 0x71180a8960409a42, 0xb60c05ca30204d21, 0x5b068c651810a89e,
   0x456c34887a3805b9, 0xac361a443d1c8cd2, 0x561b0d22900e4669, 0x2b838811480723ba,
   0x9bcf4486248d9f5d, 0xc3e9224312c8c1a0, 0xeffa11af0964ee50, 0xf97d86d98a327728,
   0xe4fa2054a80b329c, 0x727d102a548b194e, 0x39b008152acb8227, 0x9258048415eb419d,
   0x492c024284fbaec0, 0xaa16012142f35760, 0x550b8e9e21f7a530, 0xa48b474f9ef5dc18,
   0x70a6a56e2440598e, 0x3853dc371220a247, 0x1ca76e95091051ad, 0x0edd37c48a08a6d8,
   0x07e095624504536c, 0x8d70c431ac02a736, 0xc83862965601dd1b, 0x641c314b2b8ee083]"

definition C_tbl :: "8 word list list" where
  "C_tbl =
  [[0xb1, 0x08, 0x5b, 0xda, 0x1e, 0xca, 0xda, 0xe9, 0xeb, 0xcb, 0x2f, 0x81, 0xc0, 0x65, 0x7c, 0x1f,
    0x2f, 0x6a, 0x76, 0x43, 0x2e, 0x45, 0xd0, 0x16, 0x71, 0x4e, 0xb8, 0x8d, 0x75, 0x85, 0xc4, 0xfc,
    0x4b, 0x7c, 0xe0, 0x91, 0x92, 0x67, 0x69, 0x01, 0xa2, 0x42, 0x2a, 0x08, 0xa4, 0x60, 0xd3, 0x15,
    0x05, 0x76, 0x74, 0x36, 0xcc, 0x74, 0x4d, 0x23, 0xdd, 0x80, 0x65, 0x59, 0xf2, 0xa6, 0x45, 0x07],
   [0x6f, 0xa3, 0xb5, 0x8a, 0xa9, 0x9d, 0x2f, 0x1a, 0x4f, 0xe3, 0x9d, 0x46, 0x0f, 0x70, 0xb5, 0xd7,
    0xf3, 0xfe, 0xea, 0x72, 0x0a, 0x23, 0x2b, 0x98, 0x61, 0xd5, 0x5e, 0x0f, 0x16, 0xb5, 0x01, 0x31,
    0x9a, 0xb5, 0x17, 0x6b, 0x12, 0xd6, 0x99, 0x58, 0x5c, 0xb5, 0x61, 0xc2, 0xdb, 0x0a, 0xa7, 0xca,
    0x55, 0xdd, 0xa2, 0x1b, 0xd7, 0xcb, 0xcd, 0x56, 0xe6, 0x79, 0x04, 0x70, 0x21, 0xb1, 0x9b, 0xb7],
   [0xf5, 0x74, 0xdc, 0xac, 0x2b, 0xce, 0x2f, 0xc7, 0x0a, 0x39, 0xfc, 0x28, 0x6a, 0x3d, 0x84, 0x35,
    0x06, 0xf1, 0x5e, 0x5f, 0x52, 0x9c, 0x1f, 0x8b, 0xf2, 0xea, 0x75, 0x14, 0xb1, 0x29, 0x7b, 0x7b,
    0xd3, 0xe2, 0x0f, 0xe4, 0x90, 0x35, 0x9e, 0xb1, 0xc1, 0xc9, 0x3a, 0x37, 0x60, 0x62, 0xdb, 0x09,
    0xc2, 0xb6, 0xf4, 0x43, 0x86, 0x7a, 0xdb, 0x31, 0x99, 0x1e, 0x96, 0xf5, 0x0a, 0xba, 0x0a, 0xb2],
   [0xef, 0x1f, 0xdf, 0xb3, 0xe8, 0x15, 0x66, 0xd2, 0xf9, 0x48, 0xe1, 0xa0, 0x5d, 0x71, 0xe4, 0xdd,
    0x48, 0x8e, 0x85, 0x7e, 0x33, 0x5c, 0x3c, 0x7d, 0x9d, 0x72, 0x1c, 0xad, 0x68, 0x5e, 0x35, 0x3f,
    0xa9, 0xd7, 0x2c, 0x82, 0xed, 0x03, 0xd6, 0x75, 0xd8, 0xb7, 0x13, 0x33, 0x93, 0x52, 0x03, 0xbe,
    0x34, 0x53, 0xea, 0xa1, 0x93, 0xe8, 0x37, 0xf1, 0x22, 0x0c, 0xbe, 0xbc, 0x84, 0xe3, 0xd1, 0x2e],
   [0x4b, 0xea, 0x6b, 0xac, 0xad, 0x47, 0x47, 0x99, 0x9a, 0x3f, 0x41, 0x0c, 0x6c, 0xa9, 0x23, 0x63,
    0x7f, 0x15, 0x1c, 0x1f, 0x16, 0x86, 0x10, 0x4a, 0x35, 0x9e, 0x35, 0xd7, 0x80, 0x0f, 0xff, 0xbd,
    0xbf, 0xcd, 0x17, 0x47, 0x25, 0x3a, 0xf5, 0xa3, 0xdf, 0xff, 0x00, 0xb7, 0x23, 0x27, 0x1a, 0x16,
    0x7a, 0x56, 0xa2, 0x7e, 0xa9, 0xea, 0x63, 0xf5, 0x60, 0x17, 0x58, 0xfd, 0x7c, 0x6c, 0xfe, 0x57],
   [0xae, 0x4f, 0xae, 0xae, 0x1d, 0x3a, 0xd3, 0xd9, 0x6f, 0xa4, 0xc3, 0x3b, 0x7a, 0x30, 0x39, 0xc0,
    0x2d, 0x66, 0xc4, 0xf9, 0x51, 0x42, 0xa4, 0x6c, 0x18, 0x7f, 0x9a, 0xb4, 0x9a, 0xf0, 0x8e, 0xc6,
    0xcf, 0xfa, 0xa6, 0xb7, 0x1c, 0x9a, 0xb7, 0xb4, 0x0a, 0xf2, 0x1f, 0x66, 0xc2, 0xbe, 0xc6, 0xb6,
    0xbf, 0x71, 0xc5, 0x72, 0x36, 0x90, 0x4f, 0x35, 0xfa, 0x68, 0x40, 0x7a, 0x46, 0x64, 0x7d, 0x6e],
   [0xf4, 0xc7, 0x0e, 0x16, 0xee, 0xaa, 0xc5, 0xec, 0x51, 0xac, 0x86, 0xfe, 0xbf, 0x24, 0x09, 0x54,
    0x39, 0x9e, 0xc6, 0xc7, 0xe6, 0xbf, 0x87, 0xc9, 0xd3, 0x47, 0x3e, 0x33, 0x19, 0x7a, 0x93, 0xc9,
    0x09, 0x92, 0xab, 0xc5, 0x2d, 0x82, 0x2c, 0x37, 0x06, 0x47, 0x69, 0x83, 0x28, 0x4a, 0x05, 0x04,
    0x35, 0x17, 0x45, 0x4c, 0xa2, 0x3c, 0x4a, 0xf3, 0x88, 0x86, 0x56, 0x4d, 0x3a, 0x14, 0xd4, 0x93],
   [0x9b, 0x1f, 0x5b, 0x42, 0x4d, 0x93, 0xc9, 0xa7, 0x03, 0xe7, 0xaa, 0x02, 0x0c, 0x6e, 0x41, 0x41,
    0x4e, 0xb7, 0xf8, 0x71, 0x9c, 0x36, 0xde, 0x1e, 0x89, 0xb4, 0x44, 0x3b, 0x4d, 0xdb, 0xc4, 0x9a,
    0xf4, 0x89, 0x2b, 0xcb, 0x92, 0x9b, 0x06, 0x90, 0x69, 0xd1, 0x8d, 0x2b, 0xd1, 0xa5, 0xc4, 0x2f,
    0x36, 0xac, 0xc2, 0x35, 0x59, 0x51, 0xa8, 0xd9, 0xa4, 0x7f, 0x0d, 0xd4, 0xbf, 0x02, 0xe7, 0x1e],
   [0x37, 0x8f, 0x5a, 0x54, 0x16, 0x31, 0x22, 0x9b, 0x94, 0x4c, 0x9a, 0xd8, 0xec, 0x16, 0x5f, 0xde,
    0x3a, 0x7d, 0x3a, 0x1b, 0x25, 0x89, 0x42, 0x24, 0x3c, 0xd9, 0x55, 0xb7, 0xe0, 0x0d, 0x09, 0x84,
    0x80, 0x0a, 0x44, 0x0b, 0xdb, 0xb2, 0xce, 0xb1, 0x7b, 0x2b, 0x8a, 0x9a, 0xa6, 0x07, 0x9c, 0x54,
    0x0e, 0x38, 0xdc, 0x92, 0xcb, 0x1f, 0x2a, 0x60, 0x72, 0x61, 0x44, 0x51, 0x83, 0x23, 0x5a, 0xdb],
   [0xab, 0xbe, 0xde, 0xa6, 0x80, 0x05, 0x6f, 0x52, 0x38, 0x2a, 0xe5, 0x48, 0xb2, 0xe4, 0xf3, 0xf3,
    0x89, 0x41, 0xe7, 0x1c, 0xff, 0x8a, 0x78, 0xdb, 0x1f, 0xff, 0xe1, 0x8a, 0x1b, 0x33, 0x61, 0x03,
    0x9f, 0xe7, 0x67, 0x02, 0xaf, 0x69, 0x33, 0x4b, 0x7a, 0x1e, 0x6c, 0x30, 0x3b, 0x76, 0x52, 0xf4,
    0x36, 0x98, 0xfa, 0xd1, 0x15, 0x3b, 0xb6, 0xc3, 0x74, 0xb4, 0xc7, 0xfb, 0x98, 0x45, 0x9c, 0xed],
   [0x7b, 0xcd, 0x9e, 0xd0, 0xef, 0xc8, 0x89, 0xfb, 0x30, 0x02, 0xc6, 0xcd, 0x63, 0x5a, 0xfe, 0x94,
    0xd8, 0xfa, 0x6b, 0xbb, 0xeb, 0xab, 0x07, 0x61, 0x20, 0x01, 0x80, 0x21, 0x14, 0x84, 0x66, 0x79,
    0x8a, 0x1d, 0x71, 0xef, 0xea, 0x48, 0xb9, 0xca, 0xef, 0xba, 0xcd, 0x1d, 0x7d, 0x47, 0x6e, 0x98,
    0xde, 0xa2, 0x59, 0x4a, 0xc0, 0x6f, 0xd8, 0x5d, 0x6b, 0xca, 0xa4, 0xcd, 0x81, 0xf3, 0x2d, 0x1b],
   [0x37, 0x8e, 0xe7, 0x67, 0xf1, 0x16, 0x31, 0xba, 0xd2, 0x13, 0x80, 0xb0, 0x04, 0x49, 0xb1, 0x7a,
    0xcd, 0xa4, 0x3c, 0x32, 0xbc, 0xdf, 0x1d, 0x77, 0xf8, 0x20, 0x12, 0xd4, 0x30, 0x21, 0x9f, 0x9b,
    0x5d, 0x80, 0xef, 0x9d, 0x18, 0x91, 0xcc, 0x86, 0xe7, 0x1d, 0xa4, 0xaa, 0x88, 0xe1, 0x28, 0x52,
    0xfa, 0xf4, 0x17, 0xd5, 0xd9, 0xb2, 0x1b, 0x99, 0x48, 0xbc, 0x92, 0x4a, 0xf1, 0x1b, 0xd7, 0x20]]"

section \<open>Block algebra\<close>

text \<open>
  \<open>operator^(const GOST3411Block&)\<close> combines the eight 64-bit words \<open>ll[i]\<close> of the
  union, which is the XOR of the same 64 bytes; \<open>operator^(const uint8_t *)\<close> combines the
  64 bytes one at a time.
\<close>

fun xor_block :: "GOST3411Block \<Rightarrow> GOST3411Block \<Rightarrow> GOST3411Block" where
  "xor_block (x # xs) (y # ys) = (x XOR y) # xor_block xs ys"
| "xor_block xs ys = []"

definition xor_buf :: "GOST3411Block \<Rightarrow> byte list \<Rightarrow> GOST3411Block" where
  "xor_buf a other = xor_block a other"

text \<open>
  \<open>operator+\<close>: the loop runs from \<open>i = 63\<close> down to \<open>0\<close>, so it walks the reversed
  byte lists; \<open>sum\<close> is a \<open>uint16_t\<close> and \<open>carry\<close> a \<open>uint8_t\<close>.
\<close>

fun block_add_loop :: "byte list \<Rightarrow> byte list \<Rightarrow> byte \<Rightarrow> byte list" where
  "block_add_loop (x # xs) (y # ys) carry =
     ucast ((ucast x + ucast y + ucast carry :: 16 word) AND 0xFF)
       # block_add_loop xs ys (ucast (drop_bit 8 (ucast x + ucast y + ucast carry :: 16 word)))"
| "block_add_loop xs ys carry = []"

definition block_add :: "GOST3411Block \<Rightarrow> GOST3411Block \<Rightarrow> GOST3411Block" where
  "block_add a other = rev (block_add_loop (rev a) (rev other) 0)"

text \<open>\<open>Add (uint32_t c)\<close>: again from the last byte to the first; \<open>c += buf[i]\<close> wraps at 32 bits.\<close>

fun Add_loop :: "byte list \<Rightarrow> 32 word \<Rightarrow> byte list" where
  "Add_loop [] c = []"
| "Add_loop (x # xs) c = ucast (c + ucast x) # Add_loop xs (drop_bit 8 (c + ucast x))"

definition Add :: "GOST3411Block \<Rightarrow> 32 word \<Rightarrow> GOST3411Block" where
  "Add buf c = rev (Add_loop (rev buf) c)"

text \<open>
  \<open>SPL\<close>. The innermost loop over \<open>k\<close> tests the bits of the substituted byte from
  \<open>0x80\<close> downwards and XORs \<open>A_[j*8+k]\<close> into the accumulator \<open>c\<close>; the loop over
  \<open>j\<close> reads \<open>p[j*8+i]\<close> (the transposition) through the S-box; the loop over \<open>i\<close>
  stores each accumulator as word \<open>i\<close>, most significant byte first (\<open>htobe64\<close>, the
  branch taken when \<open>WIN32\<close> is not defined). \<open>p\<close> is a copy of the block, so the
  stores do not change what later iterations read.
\<close>

fun SPL_bits :: "byte \<Rightarrow> nat \<Rightarrow> nat list \<Rightarrow> byte \<Rightarrow> 64 word \<Rightarrow> 64 word" where
  "SPL_bits byte j [] msk c = c"
| "SPL_bits byte j (k # ks) msk c =
     SPL_bits byte j ks (drop_bit 1 msk) (if byte AND msk \<noteq> 0 then c XOR A_tbl ! (j * 8 + k) else c)"

fun SPL_bytes :: "byte list \<Rightarrow> nat \<Rightarrow> nat list \<Rightarrow> 64 word \<Rightarrow> 64 word" where
  "SPL_bytes p i [] c = c"
| "SPL_bytes p i (j # js) c =
     SPL_bytes p i js (SPL_bits (sbox_tbl ! unat (p ! (j * 8 + i))) j [0..<8] 0x80 c)"

definition htobe64 :: "64 word \<Rightarrow> byte list" where
  "htobe64 c =
     [ucast (drop_bit 56 c), ucast (drop_bit 48 c), ucast (drop_bit 40 c), ucast (drop_bit 32 c),
      ucast (drop_bit 24 c), ucast (drop_bit 16 c), ucast (drop_bit 8 c), ucast (drop_bit 0 c)]"

fun SPL_words :: "byte list \<Rightarrow> nat list \<Rightarrow> byte list" where
  "SPL_words p [] = []"
| "SPL_words p (i # is) = htobe64 (SPL_bytes p i [0..<8] 0) @ SPL_words p is"

definition SPL :: "GOST3411Block \<Rightarrow> GOST3411Block" where
  "SPL buf = SPL_words buf [0..<8]"

text \<open>
  \<open>E\<close>. The loop state is the pair \<open>(k, res)\<close>; one iteration is \<open>res.SPL ()\<close>,
  \<open>k = k^C_[i]\<close>, \<open>k.SPL ()\<close>, \<open>res = k^res\<close>.
\<close>

definition E_mix :: "GOST3411Block \<Rightarrow> GOST3411Block \<Rightarrow> GOST3411Block \<times> GOST3411Block" where
  "E_mix k res = (k, xor_block k res)"

fun E_round :: "nat \<Rightarrow> GOST3411Block \<times> GOST3411Block \<Rightarrow> GOST3411Block \<times> GOST3411Block" where
  "E_round i (k, res) = E_mix (SPL (xor_buf k (C_tbl ! i))) (SPL res)"

fun E_rounds :: "nat list \<Rightarrow> GOST3411Block \<times> GOST3411Block \<Rightarrow> GOST3411Block" where
  "E_rounds [] (k, res) = res"
| "E_rounds (i # is) (k, res) = E_rounds is (E_round i (k, res))"

definition E :: "GOST3411Block \<Rightarrow> GOST3411Block \<Rightarrow> GOST3411Block" where
  "E this m = E_rounds [0..<12] (this, xor_block this m)"

section \<open>Compression step\<close>

definition gN :: "GOST3411Block \<Rightarrow> GOST3411Block \<Rightarrow> GOST3411Block \<Rightarrow> GOST3411Block" where
  "gN N h m = xor_block (xor_block (E (SPL (xor_block N h)) m) h) m"

section \<open>One-shot hash\<close>

text \<open>
  \<open>memset\<close> and \<open>memcpy\<close> on byte lists: \<open>n\<close> bytes written at offset \<open>off\<close> of the
  destination. The source pointer of \<open>memcpy\<close> is the list that starts at the byte it
  points to. Reads and writes past the end of an array are outside the model.
\<close>

definition memset :: "byte list \<Rightarrow> nat \<Rightarrow> byte \<Rightarrow> nat \<Rightarrow> byte list" where
  "memset dst off v n = take off dst @ replicate n v @ drop (off + n) dst"

definition memcpy :: "byte list \<Rightarrow> nat \<Rightarrow> byte list \<Rightarrow> nat \<Rightarrow> byte list" where
  "memcpy dst off src n = take off dst @ take n src @ drop (off + n) dst"

text \<open>Stage 2 of \<open>H\<close>: the loop \<open>while (l >= 64)\<close>, which takes the blocks from the tail of \<open>buf\<close>.\<close>

function H_stage2 ::
  "byte list \<Rightarrow> nat \<Rightarrow> GOST3411Block \<Rightarrow> GOST3411Block \<Rightarrow> GOST3411Block \<Rightarrow> GOST3411Block
     \<Rightarrow> GOST3411Block \<times> GOST3411Block \<times> GOST3411Block \<times> GOST3411Block \<times> nat" where
  "H_stage2 buf l h N s m =
     (if l \<ge> 64 then
        H_stage2 buf (l - 64)
          (gN N h (memcpy m 0 (drop (l - 64) buf) 64))
          (Add N 512)
          (block_add (memcpy m 0 (drop (l - 64) buf) 64) s)
          (memcpy m 0 (drop (l - 64) buf) 64)
      else (h, N, s, m, l))"
  by pat_completeness auto
termination
  by (relation "measure (\<lambda>(buf, l, h, N, s, m). l)") auto

declare H_stage2.simps [simp del]

text \<open>Stage 3: the padded last block, built in \<open>m\<close> from the first \<open>l\<close> bytes of \<open>buf\<close>.\<close>

definition H_stage3_block :: "GOST3411Block \<Rightarrow> byte list \<Rightarrow> nat \<Rightarrow> GOST3411Block" where
  "H_stage3_block m buf l =
     (let padding = 64 - l;
          m1 = (if padding \<noteq> 0 then (memset m 0 0 (padding - 1))[padding - 1 := 1] else m)
      in memcpy m1 padding buf l)"

text \<open>
  The rest of \<open>H\<close> after the padded block is known: one compression with the running
  \<open>N\<close>, the counter and checksum updates, and the two finishing compressions with \<open>N0\<close>.
\<close>

definition H_final ::
  "GOST3411Block \<Rightarrow> GOST3411Block \<Rightarrow> GOST3411Block \<Rightarrow> GOST3411Block \<Rightarrow> nat \<Rightarrow> GOST3411Block" where
  "H_final h N s m l =
     (let h1 = gN N h m;
          N1 = Add N (word_of_nat (l * 8));
          s1 = block_add m s;
          N0 = memset (replicate 64 0) 0 0 64;
          h2 = gN N0 h1 N1;
          h3 = gN N0 h2 s1
      in h3)"

text \<open>
  \<open>H\<close>. The locals \<open>h\<close>, \<open>N\<close>, \<open>s\<close> are written in full before they are read; \<open>m\<close> is
  written in full by the first \<open>memcpy\<close> of stage 2 or by stage 3. They start here as
  zero arrays. The result is the 64 bytes copied to \<open>digest\<close>.
\<close>

definition H :: "byte list \<Rightarrow> byte list \<Rightarrow> nat \<Rightarrow> byte list" where
  "H iv buf len =
     (case H_stage2 buf len (memcpy (replicate 64 0) 0 iv 64) (memset (replicate 64 0) 0 0 64)
             (memset (replicate 64 0) 0 0 64) (replicate 64 0) of
        (h, N, s, m, l) \<Rightarrow>
          memcpy (replicate 64 0) 0 (H_final h N s (H_stage3_block m buf l) l) 64)"

definition GOSTR3411_2012_256 :: "byte list \<Rightarrow> nat \<Rightarrow> byte list" where
  "GOSTR3411_2012_256 buf len =
     memcpy (replicate 32 0) 0 (H (memset (replicate 64 0) 0 1 64) buf len) 32"

definition GOSTR3411_2012_512 :: "byte list \<Rightarrow> nat \<Rightarrow> byte list" where
  "GOSTR3411_2012_512 buf len = H (memset (replicate 64 0) 0 0 64) buf len"

section \<open>Streaming context\<close>

record GOSTR3411_2012_CTX =
  ctx_h :: GOST3411Block
  ctx_N :: GOST3411Block
  ctx_s :: GOST3411Block
  ctx_m :: GOST3411Block
  ctx_len :: nat
  is512 :: bool

text \<open>
  \<open>GOSTR3411_2012_CTX_new\<close> returns a context with unspecified contents, and
  \<open>GOSTR3411_2012_CTX_Init\<close> leaves \<open>m\<close> as it finds it: the context before \<open>Init\<close>
  is an argument.
\<close>

definition GOSTR3411_2012_CTX_Init :: "GOSTR3411_2012_CTX \<Rightarrow> bool \<Rightarrow> GOSTR3411_2012_CTX" where
  "GOSTR3411_2012_CTX_Init ctx b =
     ctx\<lparr>ctx_h := memcpy (ctx_h ctx) 0 (memset (replicate 64 0) 0 (if b then 0 else 1) 64) 64,
         ctx_N := memset (ctx_N ctx) 0 0 64,
         ctx_s := memset (ctx_s ctx) 0 0 64,
         ctx_len := 0,
         is512 := b\<rparr>"

text \<open>
  The three copying loops of \<open>Update\<close> have one shape, \<open>m.buf[off + i] = buf[l-i-1]\<close>
  for \<open>i < l\<close>; the three lines that follow the first two loops are \<open>absorb\<close>.
\<close>

definition invert_into :: "GOST3411Block \<Rightarrow> nat \<Rightarrow> byte list \<Rightarrow> nat \<Rightarrow> GOST3411Block" where
  "invert_into m off buf l = fold (\<lambda>i m. m[off + i := buf ! (l - i - 1)]) [0..<l] m"

definition absorb :: "GOSTR3411_2012_CTX \<Rightarrow> GOSTR3411_2012_CTX" where
  "absorb ctx =
     ctx\<lparr>ctx_h := gN (ctx_N ctx) (ctx_h ctx) (ctx_m ctx),
         ctx_N := Add (ctx_N ctx) 512,
         ctx_s := block_add (ctx_m ctx) (ctx_s ctx)\<rparr>"

function Update_loop ::
  "byte list \<Rightarrow> nat \<Rightarrow> GOSTR3411_2012_CTX \<Rightarrow> byte list \<times> nat \<times> GOSTR3411_2012_CTX" where
  "Update_loop buf len ctx =
     (if len \<ge> 64 then
        Update_loop (drop 64 buf) (len - 64) (absorb (ctx\<lparr>ctx_m := invert_into (ctx_m ctx) 0 buf 64\<rparr>))
      else (buf, len, ctx))"
  by pat_completeness auto
termination
  by (relation "measure (\<lambda>(buf, len, ctx). len)") auto

declare Update_loop.simps [simp del]

text \<open>
  The first block of \<open>Update\<close>, taken when something is left from the previous call:
  it copies \<open>l = min len (64 - ctx->len)\<close> bytes behind the pending ones and then
  compresses \<open>m\<close>, whether or not the block is full.
\<close>

definition Update_pending ::
  "byte list \<Rightarrow> nat \<Rightarrow> GOSTR3411_2012_CTX \<Rightarrow> byte list \<times> nat \<times> GOSTR3411_2012_CTX" where
  "Update_pending buf len ctx =
     (let l = 64 - ctx_len ctx;
          l = (if len < l then len else l)
      in (drop l buf, len - l,
          absorb (ctx\<lparr>ctx_m := invert_into (ctx_m ctx) (ctx_len ctx) buf l,
                      ctx_len := ctx_len ctx + l\<rparr>)))"

definition Update_carry :: "byte list \<times> nat \<times> GOSTR3411_2012_CTX \<Rightarrow> GOSTR3411_2012_CTX" where
  "Update_carry st =
     (case st of (buf, len, ctx) \<Rightarrow>
        (if len > 0 then ctx\<lparr>ctx_m := invert_into (ctx_m ctx) 0 buf len\<rparr> else ctx)\<lparr>ctx_len := len\<rparr>)"

definition GOSTR3411_2012_CTX_Update ::
  "byte list \<Rightarrow> nat \<Rightarrow> GOSTR3411_2012_CTX \<Rightarrow> GOSTR3411_2012_CTX" where
  "GOSTR3411_2012_CTX_Update buf len ctx =
     (if len = 0 then ctx
      else case (if ctx_len ctx > 0 then Update_pending buf len ctx else (buf, len, ctx)) of
        (buf1, len1, ctx1) \<Rightarrow> Update_carry (Update_loop buf1 len1 ctx1))"

text \<open>\<open>Finish\<close>: the padded block is built in a local \<open>m\<close> from the pending bytes.\<close>

definition Finish_block :: "GOST3411Block \<Rightarrow> GOSTR3411_2012_CTX \<Rightarrow> GOST3411Block" where
  "Finish_block m ctx =
     (let padding = 64 - ctx_len ctx;
          m1 = (if padding \<noteq> 0 then (memset m 0 0 (padding - 1))[padding - 1 := 1] else m)
      in memcpy m1 padding (ctx_m ctx) (ctx_len ctx))"

definition Finish_ctx :: "GOSTR3411_2012_CTX \<Rightarrow> GOSTR3411_2012_CTX" where
  "Finish_ctx ctx =
     (let m = Finish_block (replicate 64 0) ctx;
          c1 = ctx\<lparr>ctx_h := gN (ctx_N ctx) (ctx_h ctx) m\<rparr>;
          c2 = c1\<lparr>ctx_N := Add (ctx_N c1) (word_of_nat (ctx_len c1 * 8))\<rparr>;
          c3 = c2\<lparr>ctx_s := block_add m (ctx_s c2)\<rparr>;
          N0 = memset (replicate 64 0) 0 0 64;
          c4 = c3\<lparr>ctx_h := gN N0 (ctx_h c3) (ctx_N c3)\<rparr>
      in c4\<lparr>ctx_h := gN N0 (ctx_h c4) (ctx_s c4)\<rparr>)"

text \<open>The digest written by \<open>Finish\<close>, \<open>digest[i] = h.buf[sz - i - 1]\<close>, and the context it leaves.\<close>

definition GOSTR3411_2012_CTX_Finish :: "GOSTR3411_2012_CTX \<Rightarrow> byte list \<times> GOSTR3411_2012_CTX" where
  "GOSTR3411_2012_CTX_Finish ctx =
     (let c = Finish_ctx ctx;
          sz = (if is512 c then 64 else 32)
      in (map (\<lambda>i. ctx_h c ! (sz - i - 1)) [0..<sz], c))"

text \<open>
  A run of the streaming interface: \<open>Init\<close> on a fresh context, one \<open>Update\<close> per
  chunk with the chunk's length, then \<open>Finish\<close>. The one-shot digest of the same
  variant is \<open>oneshot_digest\<close>.
\<close>

abbreviation (input) Update_chunk :: "byte list \<Rightarrow> GOSTR3411_2012_CTX \<Rightarrow> GOSTR3411_2012_CTX" where
  "Update_chunk c ctx \<equiv> GOSTR3411_2012_CTX_Update c (length c) ctx"

definition stream_updates :: "bool \<Rightarrow> GOSTR3411_2012_CTX \<Rightarrow> byte list list \<Rightarrow> GOSTR3411_2012_CTX" where
  "stream_updates b ctx0 chunks = fold Update_chunk chunks (GOSTR3411_2012_CTX_Init ctx0 b)"

definition streaming_digest :: "bool \<Rightarrow> GOSTR3411_2012_CTX \<Rightarrow> byte list list \<Rightarrow> byte list" where
  "streaming_digest b ctx0 chunks = fst (GOSTR3411_2012_CTX_Finish (stream_updates b ctx0 chunks))"

definition oneshot_digest :: "bool \<Rightarrow> byte list \<Rightarrow> byte list" where
  "oneshot_digest b buf =
     (if b then GOSTR3411_2012_512 buf (length buf) else GOSTR3411_2012_256 buf (length buf))"

definition block_ok :: "GOST3411Block \<Rightarrow> bool" where
  "block_ok b = (length b = 64)"

definition ctx_ok :: "GOSTR3411_2012_CTX \<Rightarrow> bool" where
  "ctx_ok ctx = (block_ok (ctx_h ctx) \<and> block_ok (ctx_N ctx) \<and> block_ok (ctx_s ctx) \<and> block_ok (ctx_m ctx))"

section \<open>The signature engine: OpenSSL calls\<close>

text \<open>
  \<open>BIGNUM\<close> values are integers. The calls of the source are modelled by what OpenSSL
  documents for them: \<open>BN_mod\<close> is the remainder of the truncating division (it has the
  sign of the dividend), \<open>BN_mod_mul\<close> and \<open>BN_mod_add\<close> give the non-negative
  remainder, \<open>BN_sub\<close> is the difference, \<open>BN_cmp\<close> gives \<open>-1\<close>, \<open>0\<close> or \<open>1\<close>.
\<close>

definition BN_nnmod :: "int \<Rightarrow> int \<Rightarrow> int" where
  "BN_nnmod a m = a mod \<bar>m\<bar>"

definition BN_mod :: "int \<Rightarrow> int \<Rightarrow> int" where
  "BN_mod a m = sgn a * (\<bar>a\<bar> mod \<bar>m\<bar>)"

definition BN_mod_mul :: "int \<Rightarrow> int \<Rightarrow> int \<Rightarrow> int" where
  "BN_mod_mul a b m = BN_nnmod (a * b) m"

definition BN_mod_add :: "int \<Rightarrow> int \<Rightarrow> int \<Rightarrow> int" where
  "BN_mod_add a b m = BN_nnmod (a + b) m"

definition BN_sub :: "int \<Rightarrow> int \<Rightarrow> int" where
  "BN_sub a b = a - b"

definition BN_cmp :: "int \<Rightarrow> int \<Rightarrow> int" where
  "BN_cmp a b = (if a < b then - 1 else if a = b then 0 else 1)"

text \<open>
  \<open>BN_mod_inverse (r, a, n, ctx)\<close> returns \<open>NULL\<close> when \<open>a\<close> has no inverse modulo
  \<open>n\<close> and writes \<open>r\<close> only when it has one; the inverse is taken in \<open>[0, n)\<close>. The
  Bezout coefficient comes from \<^const>\<open>bezw\<close>.
\<close>

definition BN_mod_inverse :: "int \<Rightarrow> int \<Rightarrow> int option" where
  "BN_mod_inverse a n =
     (if n \<le> 1 then None
      else if gcd (a mod n) n = 1 then Some (fst (bezw (nat (a mod n)) (nat n)) mod n)
      else None)"

text \<open>
  \<open>BN_rand_range (rnd, range)\<close> draws \<open>rnd\<close> with \<open>0 \<le> rnd < range\<close>: the set of
  values one call may produce.
\<close>

definition BN_rand_range :: "int \<Rightarrow> int set" where
  "BN_rand_range rng = {0..<rng}"

text \<open>
  The curve group \<open>m_Group\<close> is fixed by the six numbers handed to the constructor of
  \<open>GOSTR3410Curve\<close>. An \<open>EC_POINT\<close> is the point at infinity or an affine point. The
  group operations of OpenSSL are modelled by the chord-and-tangent law in affine
  coordinates over the integers modulo \<open>p\<close>.
\<close>

record GOSTR3410Curve =
  curve_a :: int
  curve_b :: int
  curve_p :: int
  curve_q :: int
  curve_x :: int
  curve_y :: int

datatype EC_POINT = Infinity | Point int int

definition inv_mod :: "int \<Rightarrow> int \<Rightarrow> int" where
  "inv_mod a n = (case BN_mod_inverse a n of Some i \<Rightarrow> i | None \<Rightarrow> 0)"

text \<open>
  \<open>EC_POINT_set_affine_coordinates_GFp (group, p, x, y, ctx)\<close> stores both coordinates
  reduced to \<open>[0, p)\<close>. The constructor of \<open>GOSTR3410Curve\<close> makes the generator with
  it, and \<open>CreatePoint\<close> its result; neither looks at what the call returns.
\<close>

definition EC_POINT_set_affine_coordinates_GFp :: "GOSTR3410Curve \<Rightarrow> int \<Rightarrow> int \<Rightarrow> EC_POINT" where
  "EC_POINT_set_affine_coordinates_GFp c x y = Point (BN_nnmod x (curve_p c)) (BN_nnmod y (curve_p c))"

definition generator :: "GOSTR3410Curve \<Rightarrow> EC_POINT" where
  "generator c = EC_POINT_set_affine_coordinates_GFp c (curve_x c) (curve_y c)"

definition ec_neg :: "GOSTR3410Curve \<Rightarrow> EC_POINT \<Rightarrow> EC_POINT" where
  "ec_neg c P = (case P of Infinity \<Rightarrow> Infinity | Point x y \<Rightarrow> Point x ((- y) mod curve_p c))"

definition ec_chord :: "GOSTR3410Curve \<Rightarrow> int \<Rightarrow> int \<Rightarrow> int \<Rightarrow> int \<Rightarrow> EC_POINT" where
  "ec_chord c l x1 y1 x2 =
     Point ((l * l - x1 - x2) mod curve_p c)
           ((l * (x1 - (l * l - x1 - x2) mod curve_p c) - y1) mod curve_p c)"

fun EC_POINT_add :: "GOSTR3410Curve \<Rightarrow> EC_POINT \<Rightarrow> EC_POINT \<Rightarrow> EC_POINT" where
  "EC_POINT_add c Infinity Q = Q"
| "EC_POINT_add c (Point x1 y1) Infinity = Point x1 y1"
| "EC_POINT_add c (Point x1 y1) (Point x2 y2) =
     (if (x1 - x2) mod curve_p c = 0 then
        (if (y1 + y2) mod curve_p c = 0 then Infinity
         else ec_chord c ((3 * x1 * x1 + curve_a c) * inv_mod (2 * y1) (curve_p c) mod curve_p c) x1 y1 x2)
      else ec_chord c ((y2 - y1) * inv_mod (x2 - x1) (curve_p c) mod curve_p c) x1 y1 x2)"

text \<open>Scalar multiplication by doubling and adding; a negative scalar negates the point.\<close>

fun ec_mul_nat :: "GOSTR3410Curve \<Rightarrow> nat \<Rightarrow> EC_POINT \<Rightarrow> EC_POINT" where
  "ec_mul_nat c n P =
     (if n = 0 then Infinity
      else if odd n then EC_POINT_add c (EC_POINT_add c (ec_mul_nat c (n div 2) P) (ec_mul_nat c (n div 2) P)) P
      else EC_POINT_add c (ec_mul_nat c (n div 2) P) (ec_mul_nat c (n div 2) P))"

declare ec_mul_nat.simps [simp del]

definition ec_mul :: "GOSTR3410Curve \<Rightarrow> int \<Rightarrow> EC_POINT \<Rightarrow> EC_POINT" where
  "ec_mul c n P = (if n < 0 then ec_neg c (ec_mul_nat c (nat (- n)) P) else ec_mul_nat c (nat n) P)"

text \<open>
  \<open>EC_POINT_mul (group, r, n, q, m, ctx)\<close> sets \<open>r = n * generator + m * q\<close>; \<open>n\<close> may
  be \<open>NULL\<close>, and so may \<open>q\<close> and \<open>m\<close> together.
\<close>

definition EC_POINT_mul :: "GOSTR3410Curve \<Rightarrow> int option \<Rightarrow> (EC_POINT \<times> int) option \<Rightarrow> EC_POINT" where
  "EC_POINT_mul c n qm =
     EC_POINT_add c
       (case n of None \<Rightarrow> Infinity | Some n' \<Rightarrow> ec_mul c n' (generator c))
       (case qm of None \<Rightarrow> Infinity | Some (Q, m) \<Rightarrow> ec_mul c m Q)"

text \<open>
  \<open>EC_POINT_get_affine_coordinates_GFp\<close> fails on the point at infinity and then
  leaves its outputs untouched.
\<close>

definition EC_POINT_get_affine_coordinates_GFp :: "GOSTR3410Curve \<Rightarrow> EC_POINT \<Rightarrow> (int \<times> int) option" where
  "EC_POINT_get_affine_coordinates_GFp c P = (case P of Infinity \<Rightarrow> None | Point x y \<Rightarrow> Some (x, y))"

text \<open>
  \<open>EC_POINT_set_compressed_coordinates_GFp (group, point, x, y_bit, ctx)\<close>: \<open>x\<close> is
  reduced modulo \<open>p\<close>, a square root \<open>y\<close> of \<open>x\<^sup>3 + a x + b\<close> is looked for, and the
  root whose lowest bit is \<open>y_bit\<close> is taken; the call fails when there is no root, or
  when the root is \<open>0\<close> and \<open>y_bit\<close> is \<open>1\<close>.
\<close>

definition BN_mod_sqrt :: "int \<Rightarrow> int \<Rightarrow> int option" where
  "BN_mod_sqrt a p = find (\<lambda>y. (y * y) mod p = a mod p) [0..p - 1]"

definition EC_POINT_set_compressed_coordinates_GFp :: "GOSTR3410Curve \<Rightarrow> int \<Rightarrow> bool \<Rightarrow> EC_POINT option" where
  "EC_POINT_set_compressed_coordinates_GFp c x y_bit =
     (case BN_mod_sqrt ((x mod curve_p c) * (x mod curve_p c) * (x mod curve_p c)
                          + curve_a c * (x mod curve_p c) + curve_b c) (curve_p c) of
        None \<Rightarrow> None
      | Some y \<Rightarrow>
          if y_bit = odd y then Some (Point (x mod curve_p c) y)
          else if y = 0 then None
          else Some (Point (x mod curve_p c) (curve_p c - y)))"

section \<open>The signature engine: the functions of the source\<close>

definition MulP :: "GOSTR3410Curve \<Rightarrow> int \<Rightarrow> EC_POINT" where
  "MulP c n = EC_POINT_mul c (Some n) None"

definition GetXY :: "GOSTR3410Curve \<Rightarrow> EC_POINT \<Rightarrow> (int \<times> int) option" where
  "GetXY c p = EC_POINT_get_affine_coordinates_GFp c p"

definition CreatePoint :: "GOSTR3410Curve \<Rightarrow> int \<Rightarrow> int \<Rightarrow> EC_POINT" where
  "CreatePoint c x y = EC_POINT_set_affine_coordinates_GFp c x y"

text \<open>
  \<open>Sign\<close> once the nonce \<open>k\<close> is drawn. \<open>r0\<close> is the number the caller's \<open>r\<close> holds
  on entry: \<open>GetXY (C, r, nullptr)\<close> overwrites it only when \<open>C\<close> is not the point at
  infinity, and its return value is not looked at.
\<close>

definition Sign_with :: "GOSTR3410Curve \<Rightarrow> int \<Rightarrow> int \<Rightarrow> int \<Rightarrow> int \<Rightarrow> int \<times> int" where
  "Sign_with c k priv digest r0 =
     (let q = curve_q c;
          C = MulP c k;
          r = (case GetXY c C of Some (x, y) \<Rightarrow> x | None \<Rightarrow> r0);
          s = BN_mod_mul r priv q;
          tmp = BN_mod_mul k digest q;
          s = BN_mod_add s tmp q
      in (r, s))"

text \<open>\<open>Sign\<close>: every pair \<open>(r, s)\<close> it may return, one for each nonce \<open>BN_rand_range\<close> may draw.\<close>

definition Sign :: "GOSTR3410Curve \<Rightarrow> int \<Rightarrow> int \<Rightarrow> int \<Rightarrow> (int \<times> int) set" where
  "Sign c priv digest r0 = (\<lambda>k. Sign_with c k priv digest r0) ` BN_rand_range (curve_q c)"

text \<open>
  \<open>Verify\<close>. Neither the result of \<open>BN_mod_inverse\<close> nor that of \<open>GetXY\<close> is looked
  at: when there is no inverse \<open>h\<close> keeps \<open>digest % q\<close>, and when \<open>C\<close> is the point at
  infinity \<open>x\<close> keeps the zero that \<open>BN_CTX_get\<close> gave it.
\<close>

definition Verify_point :: "GOSTR3410Curve \<Rightarrow> EC_POINT \<Rightarrow> int \<Rightarrow> int \<Rightarrow> int \<Rightarrow> EC_POINT" where
  "Verify_point c pub digest r s =
     (let q = curve_q c;
          h = BN_mod digest q;
          h = (case BN_mod_inverse h q of Some i \<Rightarrow> i | None \<Rightarrow> h);
          z1 = BN_mod_mul s h q;
          z2 = BN_sub q r;
          z2 = BN_mod_mul z2 h q
      in EC_POINT_mul c (Some z1) (Some (pub, z2)))"

definition Verify :: "GOSTR3410Curve \<Rightarrow> EC_POINT \<Rightarrow> int \<Rightarrow> int \<Rightarrow> int \<Rightarrow> bool" where
  "Verify c pub digest r s =
     (let q = curve_q c;
          C = Verify_point c pub digest r s;
          x = (case GetXY c C of Some (cx, cy) \<Rightarrow> cx | None \<Rightarrow> 0);
          x = BN_mod x q
      in BN_cmp x r = 0)"

text \<open>
  \<open>RecoverPublicKey\<close>: \<open>None\<close> is the null pointer. When \<open>r\<close> has no inverse modulo
  \<open>q\<close>, \<open>r1\<close> keeps the zero that \<open>BN_CTX_get\<close> gave it.
\<close>

definition RecoverPublicKey :: "GOSTR3410Curve \<Rightarrow> int \<Rightarrow> int \<Rightarrow> int \<Rightarrow> bool \<Rightarrow> EC_POINT option" where
  "RecoverPublicKey c digest r s isNegativeY =
     (case EC_POINT_set_compressed_coordinates_GFp c r isNegativeY of
        None \<Rightarrow> None
      | Some C \<Rightarrow>
          (let S = EC_POINT_mul c (Some s) None;
               q = curve_q c;
               h = BN_mod digest q;
               h = BN_sub q h;
               H = EC_POINT_mul c None (Some (C, h));
               C1 = EC_POINT_add c S H;
               r1 = (case BN_mod_inverse r q of Some i \<Rightarrow> i | None \<Rightarrow> 0)
           in Some (EC_POINT_mul c None (Some (C1, r1)))))"

text \<open>
  The two parameter sets of \<open>CreateGOSTR3410Curve\<close> (\<open>a\<close>, \<open>b\<close>, \<open>p\<close>, \<open>q\<close>, \<open>x\<close>,
  \<open>y\<close>), named after the comments of the source.
\<close>

datatype GOSTR3410ParamSet = CryptoProA | TC26_2012_ParamSetA_512

definition CreateGOSTR3410Curve :: "GOSTR3410ParamSet \<Rightarrow> GOSTR3410Curve" where
  "CreateGOSTR3410Curve paramSet =
     (case paramSet of
        CryptoProA \<Rightarrow>
          \<lparr>curve_a = 0xFFFFFFFFFFFFFFFFFFFFFFFFFFFFFFFFFFFFFFFFFFFFFFFFFFFFFFFFFFFFFD94,
           curve_b = 0xA6,
           curve_p = 0xFFFFFFFFFFFFFFFFFFFFFFFFFFFFFFFFFFFFFFFFFFFFFFFFFFFFFFFFFFFFFD97,
           curve_q = 0xFFFFFFFFFFFFFFFFFFFFFFFFFFFFFFFF6C611070995AD10045841B09B761B893,
           curve_x = 0x1,
           curve_y = 0x8D91E471E0989CDA27DF505A453F2B7635294F2DDF23E3B122ACC99C9E9F1E14\<rparr>
      | TC26_2012_ParamSetA_512 \<Rightarrow>
          \<lparr>curve_a = 0xFFFFFFFFFFFFFFFFFFFFFFFFFFFFFFFFFFFFFFFFFFFFFFFFFFFFFFFFFFFFFFFFFFFFFFFFFFFFFFFFFFFFFFFFFFFFFFFFFFFFFFFFFFFFFFFFFFFFFFFFFFFFFDC4,
           curve_b = 0xE8C2505DEDFC86DDC1BD0B2B6667F1DA34B82574761CB0E879BD081CFD0B6265EE3CB090F30D27614CB4574010DA90DD862EF9D4EBEE4761503190785A71C760,
           curve_p = 0xFFFFFFFFFFFFFFFFFFFFFFFFFFFFFFFFFFFFFFFFFFFFFFFFFFFFFFFFFFFFFFFFFFFFFFFFFFFFFFFFFFFFFFFFFFFFFFFFFFFFFFFFFFFFFFFFFFFFFFFFFFFFFDC7,
           curve_q = 0xFFFFFFFFFFFFFFFFFFFFFFFFFFFFFFFFFFFFFFFFFFFFFFFFFFFFFFFFFFFFFFFF27E69532F48D89116FF22B8D4E0560609B4B38ABFAD2B85DCACDB1411F10B275,
           curve_x = 0x3,
           curve_y = 0x7503CFE87A836AE3A61B8816E25450E6CE5E1C93ACF1ABC1778064FDCBEFA921DF1626BE4FD036E93D75E6A50E3A41E98028FE5FC235F5B889A589CB5215F2A4\<rparr>)"

text \<open>
  A curve small enough to compute on by hand, as the constructor of \<open>GOSTR3410Curve\<close>
  accepts it: \<open>y\<^sup>2 = x\<^sup>3 + 2 x + 7\<close> over the integers modulo \<open>11\<close>, whose seven points
  form a group of prime order \<open>q = 7\<close> generated by \<open>(6, 2)\<close>.
\<close>

definition small_curve :: GOSTR3410Curve where
  "small_curve = \<lparr>curve_a = 2, curve_b = 7, curve_p = 11, curve_q = 7, curve_x = 6, curve_y = 2\<rparr>"

section \<open>Definitions used to state the properties\<close>

text \<open>
  The cipher and the compression step as the specification words them: the state starts
  as \<open>K0 \<oplus> M\<close> and the key as \<open>K0\<close>; each of the rounds \<open>0..11\<close> performs
  \<open>state = SPL(state)\<close>, \<open>key = SPL(key \<oplus> RoundConstant[i])\<close>, \<open>state = key \<oplus> state\<close>;
  \<open>g(N, h, m) = E(SPL(N \<oplus> h), m) \<oplus> h \<oplus> m\<close>.
\<close>

definition spec_round :: "GOST3411Block \<times> GOST3411Block \<Rightarrow> nat \<Rightarrow> GOST3411Block \<times> GOST3411Block" where
  "spec_round st i =
     (let state = SPL (fst st);
          key = SPL (xor_block (snd st) (C_tbl ! i));
          state = xor_block key state
      in (state, key))"

definition spec_E :: "GOST3411Block \<Rightarrow> GOST3411Block \<Rightarrow> GOST3411Block" where
  "spec_E K0 M = fst (foldl spec_round (xor_block K0 M, K0) [0..<12])"

definition spec_g :: "GOST3411Block \<Rightarrow> GOST3411Block \<Rightarrow> GOST3411Block \<Rightarrow> GOST3411Block" where
  "spec_g N h m = xor_block (xor_block (spec_E (SPL (xor_block N h)) m) h) m"

text \<open>
  The running triple \<open>(h, N, \<Sigma>)\<close> after the full 64-byte blocks of an input given in
  stream order: each block enters the compression step with its bytes in reverse order.
\<close>

function absorb_stream ::
  "byte list \<Rightarrow> GOST3411Block \<times> GOST3411Block \<times> GOST3411Block
     \<Rightarrow> GOST3411Block \<times> GOST3411Block \<times> GOST3411Block" where
  "absorb_stream X (h, N, s) =
     (if length X \<ge> 64 then
        absorb_stream (drop 64 X) (gN N h (rev (take 64 X)), Add N 512, block_add (rev (take 64 X)) s)
      else (h, N, s))"
  by pat_completeness auto
termination
  by (relation "measure (\<lambda>(X, st). length X)") auto

declare absorb_stream.simps [simp del]

definition iv_of :: "bool \<Rightarrow> GOST3411Block" where
  "iv_of b = replicate 64 (if b then 0 else 1)"

definition ctx_state :: "GOSTR3411_2012_CTX \<Rightarrow> GOST3411Block \<times> GOST3411Block \<times> GOST3411Block" where
  "ctx_state ctx = (ctx_h ctx, ctx_N ctx, ctx_s ctx)"

text \<open>The padded last block: zero bytes, one byte \<open>0x01\<close>, then the remaining bytes.\<close>

definition padded :: "byte list \<Rightarrow> GOST3411Block" where
  "padded rest = replicate (63 - length rest) 0 @ 1 # rest"

text \<open>
  The x-coordinates that decompress: \<open>x mod p\<close> has a \<open>y\<close> on the curve with the
  requested lowest bit.
\<close>

definition valid_x :: "GOSTR3410Curve \<Rightarrow> int \<Rightarrow> bool \<Rightarrow> bool" where
  "valid_x c x y_bit =
     (\<exists>y\<in>{0..<curve_p c}.
        (y * y) mod curve_p c
          = ((x mod curve_p c) * (x mod curve_p c) * (x mod curve_p c)
               + curve_a c * (x mod curve_p c) + curve_b c) mod curve_p c
        \<and> odd y = y_bit)"

text \<open>The field moduli the engine is built for: odd primes.\<close>

definition odd_prime :: "int \<Rightarrow> bool" where
  "odd_prime p = (2 < p \<and> (\<forall>d\<in>{2..<p}. \<not> d dvd p))"

text \<open>The 64-bit word as eight bytes, most significant first, through its value.\<close>

definition be_split :: "nat \<Rightarrow> byte list" where
  "be_split x = map (\<lambda>k. word_of_nat (take_bit 8 (drop_bit k x))) [56, 48, 40, 32, 24, 16, 8, 0]"


text \<open>
  The blocks that occur when the empty message is hashed with the 512-bit variant: the
  zero block, the padded block of an empty remainder, the running hash after each of the
  first two compressions, and the last one, which \<open>H\<close> returns.
\<close>

definition block_zero :: GOST3411Block where
  "block_zero =
     [0x00, 0x00, 0x00, 0x00, 0x00, 0x00, 0x00, 0x00, 0x00, 0x00, 0x00, 0x00, 0x00, 0x00, 0x00, 0x00,
      0x00, 0x00, 0x00, 0x00, 0x00, 0x00, 0x00, 0x00, 0x00, 0x00, 0x00, 0x00, 0x00, 0x00, 0x00, 0x00,
      0x00, 0x00, 0x00, 0x00, 0x00, 0x00, 0x00, 0x00, 0x00, 0x00, 0x00, 0x00, 0x00, 0x00, 0x00, 0x00,
      0x00, 0x00, 0x00, 0x00, 0x00, 0x00, 0x00, 0x00, 0x00, 0x00, 0x00, 0x00, 0x00, 0x00, 0x00, 0x00]"

definition block_pad_empty :: GOST3411Block where
  "block_pad_empty =
     [0x00, 0x00, 0x00, 0x00, 0x00, 0x00, 0x00, 0x00, 0x00, 0x00, 0x00, 0x00, 0x00, 0x00, 0x00, 0x00,
      0x00, 0x00, 0x00, 0x00, 0x00, 0x00, 0x00, 0x00, 0x00, 0x00, 0x00, 0x00, 0x00, 0x00, 0x00, 0x00,
      0x00, 0x00, 0x00, 0x00, 0x00, 0x00, 0x00, 0x00, 0x00, 0x00, 0x00, 0x00, 0x00, 0x00, 0x00, 0x00,
      0x00, 0x00, 0x00, 0x00, 0x00, 0x00, 0x00, 0x00, 0x00, 0x00, 0x00, 0x00, 0x00, 0x00, 0x00, 0x01]"

definition empty512_h1 :: GOST3411Block where
  "empty512_h1 =
     [0xAE, 0x9E, 0x67, 0x51, 0xF6, 0xFC, 0x67, 0xC7, 0x2A, 0x02, 0x56, 0xE7, 0x09, 0x53, 0x57, 0xF8,
      0x0B, 0x04, 0x05, 0x99, 0xA4, 0xDA, 0xD6, 0xCA, 0x20, 0x96, 0xC5, 0x6D, 0xE2, 0xD0, 0x5E, 0x39,
      0x9D, 0x04, 0xAB, 0xDD, 0xB5, 0x3C, 0xE8, 0x50, 0xAA, 0xE4, 0x46, 0x85, 0x23, 0x1E, 0xDE, 0x38,
      0x09, 0x63, 0xBA, 0x6C, 0x8C, 0x49, 0x00, 0xA4, 0x03, 0x68, 0xB6, 0x2B, 0x33, 0x89, 0x3C, 0xDA]"

definition empty512_h2 :: GOST3411Block where
  "empty512_h2 =
     [0x7A, 0xF2, 0x82, 0xA0, 0xB6, 0x2B, 0x70, 0x79, 0xDE, 0x85, 0x4D, 0x6B, 0x78, 0x1D, 0x39, 0x81,
      0xF9, 0xE6, 0x89, 0x5F, 0xF7, 0xCE, 0x53, 0xFF, 0x37, 0xC2, 0x98, 0x47, 0x45, 0xAB, 0xCE, 0xEC,
      0x57, 0xB3, 0x1F, 0x15, 0x79, 0x23, 0xA5, 0x63, 0x6D, 0x96, 0xB2, 0x27, 0xDB, 0xA1, 0x56, 0x33,
      0x0D, 0x25, 0xB9, 0x17, 0x60, 0x0B, 0x6D, 0x58, 0x6E, 0x21, 0x8D, 0x8A, 0x26, 0x1F, 0x4E, 0x07]"

definition empty512_digest :: GOST3411Block where
  "empty512_digest =
     [0x8A, 0x1A, 0x1C, 0x4C, 0xBF, 0x90, 0x9F, 0x8E, 0xCB, 0x81, 0xCD, 0x1B, 0x5C, 0x71, 0x3A, 0xBA,
      0xD2, 0x6A, 0x4C, 0xAC, 0x2A, 0x5F, 0xDA, 0x3C, 0xE8, 0x6E, 0x35, 0x28, 0x55, 0x71, 0x2F, 0x36,
      0xA7, 0xF0, 0xBE, 0x98, 0xEB, 0x6C, 0xF5, 0x15, 0x53, 0xB5, 0x07, 0xB7, 0x3A, 0x87, 0xE9, 0x79,
      0x46, 0xAE, 0xBC, 0x29, 0x85, 0x92, 0x55, 0x04, 0x9F, 0x86, 0xAA, 0x09, 0xA2, 0x5D, 0x94, 0x8E]"

text \<open>A context as \<open>GOSTR3411_2012_CTX_new\<close> may return it: here all of its memory is zero.\<close>

definition zero_ctx :: GOSTR3411_2012_CTX where
  "zero_ctx = \<lparr>ctx_h = replicate 64 0, ctx_N = replicate 64 0, ctx_s = replicate 64 0,
                ctx_m = replicate 64 0, ctx_len = 0, is512 = False\<rparr>"

section \<open>Properties of the hash\<close>

subsection \<open>Lengths\<close>

lemma length_xor_block [simp]: "length (xor_block a b) = min (length a) (length b)"
  by (induction a b rule: xor_block.induct) auto

lemma length_block_add_loop [simp]: "length (block_add_loop a b c) = min (length a) (length b)"
  by (induction a b c rule: block_add_loop.induct) auto

lemma length_block_add [simp]: "length (block_add a b) = min (length a) (length b)"
  by (simp add: block_add_def)

lemma length_Add_loop [simp]: "length (Add_loop xs c) = length xs"
  by (induction xs c rule: Add_loop.induct) auto

lemma length_Add [simp]: "length (Add buf c) = length buf"
  by (simp add: Add_def)

lemma length_htobe64 [simp]: "length (htobe64 c) = 8"
  by (simp add: htobe64_def)

lemma length_SPL_words [simp]: "length (SPL_words p is) = 8 * length is"
  by (induction "is") auto

lemma length_SPL [simp]: "length (SPL buf) = 64"
  by (simp add: SPL_def)

lemma length_E_rounds:
  "length (snd st) = 64 \<Longrightarrow> length (E_rounds is st) = 64"
proof (induction "is" arbitrary: st)
  case Nil
  then show ?case by (cases st) simp
next
  case (Cons i "is")
  obtain k res where st: "st = (k, res)" by (cases st)
  have "length (snd (E_round i (k, res))) = 64"
    by (simp add: E_mix_def)
  with Cons.IH show ?case
    by (simp add: st)
qed

lemma upt12: "[0..<12] = [0, 1, 2, 3, 4, 5, 6, 7, 8, 9, 10, 11]"
  by (simp add: upt_rec)

lemma length_E [simp]: "length (E this m) = 64"
proof -
  have "E this m = E_rounds [1, 2, 3, 4, 5, 6, 7, 8, 9, 10, 11] (E_round 0 (this, xor_block this m))"
    by (simp add: E_def upt12)
  moreover have "length (snd (E_round 0 (this, xor_block this m))) = 64"
    by (simp add: E_mix_def)
  ultimately show ?thesis
    by (simp add: length_E_rounds)
qed

lemma length_gN [simp]: "length (gN N h m) = min 64 (min (length h) (length m))"
  by (simp add: gN_def)

subsection \<open>The cipher and the compression step against their specification\<close>

lemma E_rounds_foldl:
  "E_rounds is (k, res) = fst (foldl spec_round (res, k) is)"
proof (induction "is" arbitrary: k res)
  case Nil
  then show ?case by simp
next
  case (Cons i "is")
  have "E_round i (k, res) = (snd (spec_round (res, k) i), fst (spec_round (res, k) i))"
    by (simp add: E_mix_def spec_round_def xor_buf_def Let_def)
  then show ?case
    using Cons.IH [of "snd (spec_round (res, k) i)" "fst (spec_round (res, k) i)"]
    by simp
qed

lemma E_spec: "E K0 M = spec_E K0 M"
  by (simp add: E_def spec_E_def E_rounds_foldl)

lemma gN_spec: "gN N h m = spec_g N h m"
  by (simp add: gN_def spec_g_def E_spec)

subsection \<open>Copies\<close>

lemma memset_whole [simp]: "length dst = n \<Longrightarrow> memset dst 0 v n = replicate n v"
  by (simp add: memset_def)

lemma memcpy_whole [simp]: "length dst = n \<Longrightarrow> memcpy dst 0 src n = take n src"
  by (simp add: memcpy_def)

lemma fold_update_map:
  "off + l \<le> length m \<Longrightarrow>
     fold (\<lambda>i m. m[off + i := f i]) [0..<l] m = take off m @ map f [0..<l] @ drop (off + l) m"
proof (induction l)
  case 0
  then show ?case by simp
next
  case (Suc l)
  then have le: "off + l \<le> length m" and lt: "off + l < length m"
    by simp_all
  have "fold (\<lambda>i m. m[off + i := f i]) [0..<Suc l] m
          = (take off m @ map f [0..<l] @ drop (off + l) m)[off + l := f l]"
    using Suc.IH [OF le] by simp
  also have "\<dots> = take off m @ map f [0..<l] @ (drop (off + l) m)[0 := f l]"
    using le by (simp add: list_update_append)
  also have "(drop (off + l) m)[0 := f l] = f l # drop (off + Suc l) m"
    using lt by (simp add: Cons_nth_drop_Suc [symmetric] del: drop_Suc)
  finally show ?case
    by simp
qed

lemma map_rev_index: "l \<le> length buf \<Longrightarrow> map (\<lambda>i. buf ! (l - i - 1)) [0..<l] = rev (take l buf)"
  by (rule nth_equalityI) (simp_all add: rev_nth)

lemma invert_into_eq:
  "l \<le> length buf \<Longrightarrow> off + l \<le> length m \<Longrightarrow>
     invert_into m off buf l = take off m @ rev (take l buf) @ drop (off + l) m"
  by (simp only: invert_into_def fold_update_map map_rev_index)

lemma invert_into_block:
  "64 \<le> length buf \<Longrightarrow> length m = 64 \<Longrightarrow> invert_into m 0 buf 64 = rev (take 64 buf)"
  by (simp add: invert_into_eq)

subsection \<open>Padding\<close>

lemma pad_update:
  "length m = 64 \<Longrightarrow> l < 64 \<Longrightarrow>
     (memset m 0 0 (64 - l - 1))[64 - l - 1 := 1] = replicate (63 - l) 0 @ 1 # drop (64 - l) m"
proof -
  assume m: "length m = 64" and l: "l < 64"
  have "memset m 0 0 (64 - l - 1) = replicate (63 - l) 0 @ drop (63 - l) m"
    by (simp add: memset_def)
  moreover have "Suc (63 - l) = 64 - l"
    using l by simp
  then have "drop (63 - l) m = m ! (63 - l) # drop (64 - l) m"
    using m Cons_nth_drop_Suc [of "63 - l" m] by simp
  ultimately show ?thesis
    by (simp add: list_update_append)
qed

lemma H_stage3_block_eq:
  assumes "length m = 64" "l < 64" "l \<le> length buf"
  shows "H_stage3_block m buf l = padded (take l buf)"
proof -
  have "H_stage3_block m buf l = memcpy (replicate (63 - l) 0 @ 1 # drop (64 - l) m) (64 - l) buf l"
    using assms pad_update [of m l] by (simp add: H_stage3_block_def Let_def)
  also have "\<dots> = replicate (63 - l) 0 @ 1 # take l buf"
    using assms by (simp add: memcpy_def)
  finally show ?thesis
    using assms by (simp add: padded_def min_def)
qed

lemma Finish_block_eq:
  assumes "length m = 64" "ctx_len ctx < 64" "ctx_len ctx \<le> length (ctx_m ctx)"
  shows "Finish_block m ctx = padded (take (ctx_len ctx) (ctx_m ctx))"
proof -
  have "Finish_block m ctx = H_stage3_block m (ctx_m ctx) (ctx_len ctx)"
    by (simp add: Finish_block_def H_stage3_block_def)
  then show ?thesis
    using assms by (simp add: H_stage3_block_eq)
qed

subsection \<open>The two block loops\<close>

lemma absorb_stream_short [simp]: "length X < 64 \<Longrightarrow> absorb_stream X st = st"
  by (cases st) (simp add: absorb_stream.simps)

lemma absorb_stream_step:
  "64 \<le> length X \<Longrightarrow>
     absorb_stream X (h, N, s)
       = absorb_stream (drop 64 X) (gN N h (rev (take 64 X)), Add N 512, block_add (rev (take 64 X)) s)"
  by (subst absorb_stream.simps) simp

lemma absorb_stream_lengths:
  "length h = 64 \<Longrightarrow> length N = 64 \<Longrightarrow> length s = 64 \<Longrightarrow>
     absorb_stream X (h, N, s) = (h', N', s') \<Longrightarrow> length h' = 64 \<and> length N' = 64 \<and> length s' = 64"
proof (induction X "(h, N, s)" arbitrary: h N s rule: absorb_stream.induct)
  case (1 X h N s)
  show ?case
  proof (cases "64 \<le> length X")
    case True
    with "1.prems" have "absorb_stream (drop 64 X)
        (gN N h (rev (take 64 X)), Add N 512, block_add (rev (take 64 X)) s) = (h', N', s')"
      by (simp add: absorb_stream_step)
    with True "1.prems" show ?thesis
      by (intro "1.hyps") simp_all
  next
    case False
    with "1.prems" show ?thesis by simp
  qed
qed

lemma absorb_stream_append:
  "64 dvd length X1 \<Longrightarrow> absorb_stream (X1 @ X2) st = absorb_stream X2 (absorb_stream X1 st)"
proof (induction X1 st rule: absorb_stream.induct)
  case (1 X h N s)
  show ?case
  proof (cases "64 \<le> length X")
    case True
    then have "64 dvd length (drop 64 X)"
      using "1.prems" by (simp add: dvd_diff_nat)
    with True "1.IH" [OF True] show ?thesis
      by (simp add: absorb_stream_step)
  next
    case False
    with "1.prems" dvd_imp_le [of 64 "length X"] have "X = []"
      by (cases "length X = 0") auto
    then show ?thesis by simp
  qed
qed

lemma rev_tail_block:
  "64 \<le> length T \<Longrightarrow> take 64 (drop (length T - 64) (rev T @ Y)) = rev (take 64 T)"
proof -
  assume le: "64 \<le> length T"
  have "drop (length T - 64) (rev T) = rev (take 64 T)"
    by (simp only: rev_take)
  with le show ?thesis
    by simp
qed

lemma H_stage2_stream:
  "length m = 64 \<Longrightarrow> absorb_stream T (h, N, s) = (h', N', s') \<Longrightarrow>
     \<exists>m'. length m' = 64 \<and> H_stage2 (rev T @ Y) (length T) h N s m = (h', N', s', m', length T mod 64)"
proof (induction T "(h, N, s)" arbitrary: h N s m Y rule: absorb_stream.induct)
  case (1 T h N s)
  show ?case
  proof (cases "64 \<le> length T")
    case True
    let ?b = "rev (take 64 T)"
    have blk: "memcpy m 0 (drop (length T - 64) (rev T @ Y)) 64 = ?b"
      using "1.prems"(1) by (simp only: memcpy_whole rev_tail_block [OF True])
    have buf: "rev T @ Y = rev (drop 64 T) @ (?b @ Y)"
      by (simp add: rev_append [symmetric] del: rev_append)
    have rest: "absorb_stream (drop 64 T) (gN N h ?b, Add N 512, block_add ?b s) = (h', N', s')"
      using True "1.prems"(2) by (simp add: absorb_stream_step)
    have "\<exists>m'. length m' = 64 \<and>
            H_stage2 (rev (drop 64 T) @ (?b @ Y)) (length (drop 64 T)) (gN N h ?b) (Add N 512) (block_add ?b s) ?b
              = (h', N', s', m', length (drop 64 T) mod 64)"
      using True by (intro "1.hyps" rest) simp_all
    moreover have "length (drop 64 T) mod 64 = length T mod 64"
      using True by (simp add: le_mod_geq)
    moreover have "H_stage2 (rev T @ Y) (length T) h N s m
        = H_stage2 (rev T @ Y) (length T - 64) (gN N h ?b) (Add N 512) (block_add ?b s) ?b"
      by (subst H_stage2.simps) (simp only: blk True if_True)
    ultimately show ?thesis
      by (simp add: buf)
  next
    case False
    with "1.prems" show ?thesis
      by (subst H_stage2.simps) simp
  qed
qed

lemma Update_loop_stream:
  "length (ctx_m ctx) = 64 \<Longrightarrow>
     \<exists>ctx'. Update_loop X (length X) ctx = (drop (length X - length X mod 64) X, length X mod 64, ctx')
        \<and> ctx_state ctx' = absorb_stream X (ctx_state ctx)
        \<and> length (ctx_m ctx') = 64 \<and> ctx_len ctx' = ctx_len ctx \<and> is512 ctx' = is512 ctx"
proof (induction X arbitrary: ctx rule: length_induct)
  case (1 X)
  show ?case
  proof (cases "64 \<le> length X")
    case True
    let ?b = "rev (take 64 X)"
    let ?c = "absorb (ctx\<lparr>ctx_m := invert_into (ctx_m ctx) 0 X 64\<rparr>)"
    have blk: "invert_into (ctx_m ctx) 0 X 64 = ?b"
      using True "1.prems" by (simp add: invert_into_block)
    have st: "ctx_state ?c = (gN (ctx_N ctx) (ctx_h ctx) ?b, Add (ctx_N ctx) 512, block_add ?b (ctx_s ctx))"
      by (simp add: absorb_def ctx_state_def blk)
    have shorter: "length (drop 64 X) < length X"
      using True by simp
    have m64: "length (ctx_m ?c) = 64"
      using True by (simp add: absorb_def blk)
    obtain ctx' where
      loop: "Update_loop (drop 64 X) (length (drop 64 X)) ?c
              = (drop (length (drop 64 X) - length (drop 64 X) mod 64) (drop 64 X),
                 length (drop 64 X) mod 64, ctx')"
      and rest: "ctx_state ctx' = absorb_stream (drop 64 X) (ctx_state ?c)"
        "length (ctx_m ctx') = 64" "ctx_len ctx' = ctx_len ?c" "is512 ctx' = is512 ?c"
      using "1.IH" [rule_format, OF shorter m64] by blast
    have md: "length (drop 64 X) mod 64 = length X mod 64"
      using True by (simp add: le_mod_geq)
    have "length X mod 64 \<le> length X - 64"
      using md mod_less_eq_dividend [of "length (drop 64 X)" 64] by simp
    then have dr: "drop (length (drop 64 X) - length X mod 64) (drop 64 X) = drop (length X - length X mod 64) X"
      using True by simp
    have unf: "Update_loop X (length X) ctx = Update_loop (drop 64 X) (length (drop 64 X)) ?c"
      using True by (subst Update_loop.simps) simp
    have ab: "absorb_stream X (ctx_state ctx) = absorb_stream (drop 64 X) (ctx_state ?c)"
      using True by (simp add: ctx_state_def [of ctx] absorb_stream_step st)
    have "Update_loop X (length X) ctx
            = (drop (length (drop 64 X) - length (drop 64 X) mod 64) (drop 64 X),
               length (drop 64 X) mod 64, ctx')"
      by (simp only: unf loop)
    also have "\<dots> = (drop (length X - length X mod 64) X, length X mod 64, ctx')"
      by (simp only: md dr)
    finally have res: "Update_loop X (length X) ctx
            = (drop (length X - length X mod 64) X, length X mod 64, ctx')" .
    have "ctx_state ctx' = absorb_stream X (ctx_state ctx)"
      by (simp only: rest ab)
    moreover have "ctx_len ctx' = ctx_len ctx" "is512 ctx' = is512 ctx"
      using rest(3,4) by (simp_all add: absorb_def)
    ultimately show ?thesis
      using res rest(2) by blast
  next
    case False
    then show ?thesis
      using "1.prems" by (subst Update_loop.simps) simp
  qed
qed

subsection \<open>Updates that start with an empty pending buffer\<close>

lemma Update_aligned:
  assumes len0: "ctx_len ctx = 0" and m64: "length (ctx_m ctx) = 64"
  shows "ctx_state (Update_chunk c ctx) = absorb_stream c (ctx_state ctx)"
    and "ctx_len (Update_chunk c ctx) = length c mod 64"
    and "take (length c mod 64) (ctx_m (Update_chunk c ctx)) = rev (drop (length c - length c mod 64) c)"
    and "length (ctx_m (Update_chunk c ctx)) = 64"
    and "is512 (Update_chunk c ctx) = is512 ctx"
proof -
  let ?l = "length c mod 64"
  let ?rest = "drop (length c - ?l) c"
  obtain ctx' where
    loop: "Update_loop c (length c) ctx = (?rest, ?l, ctx')"
    and st: "ctx_state ctx' = absorb_stream c (ctx_state ctx)"
    and m': "length (ctx_m ctx') = 64" and len': "ctx_len ctx' = ctx_len ctx"
    and v': "is512 ctx' = is512 ctx"
    using Update_loop_stream [OF m64, of c] by blast
  have l64: "?l < 64" by simp
  have lrest: "length ?rest = ?l"
    by (simp add: mod_less_eq_dividend)
  have inv: "invert_into (ctx_m ctx') 0 ?rest ?l = rev ?rest @ drop ?l (ctx_m ctx')"
    using m' lrest l64 by (simp add: invert_into_eq)
  have u_eq: "Update_chunk c ctx
      = (if ?l > 0 then ctx'\<lparr>ctx_m := rev ?rest @ drop ?l (ctx_m ctx')\<rparr> else ctx')\<lparr>ctx_len := ?l\<rparr>"
  proof (cases "length c = 0")
    case True
    then have "c = []" by simp
    then have "ctx' = ctx"
      using loop by (subst (asm) Update_loop.simps) simp
    with True len0 show ?thesis
      by (simp add: GOSTR3411_2012_CTX_Update_def)
  next
    case False
    then show ?thesis
      using len0 by (simp add: GOSTR3411_2012_CTX_Update_def loop Update_carry_def inv)
  qed
  show "ctx_state (Update_chunk c ctx) = absorb_stream c (ctx_state ctx)"
    using st by (simp add: u_eq ctx_state_def)
  show "ctx_len (Update_chunk c ctx) = ?l"
    by (simp add: u_eq)
  show "take ?l (ctx_m (Update_chunk c ctx)) = rev ?rest"
    using lrest by (simp add: u_eq)
  show "length (ctx_m (Update_chunk c ctx)) = 64"
    using m' lrest l64 by (simp add: u_eq)
  show "is512 (Update_chunk c ctx) = is512 ctx"
    using v' by (simp add: u_eq)
qed

lemma fold_aligned:
  assumes "\<forall>c\<in>set cs. 64 dvd length c" "ctx_len ctx = 0" "length (ctx_m ctx) = 64"
  shows "ctx_state (fold Update_chunk cs ctx) = absorb_stream (concat cs) (ctx_state ctx)
       \<and> ctx_len (fold Update_chunk cs ctx) = 0 \<and> length (ctx_m (fold Update_chunk cs ctx)) = 64
       \<and> is512 (fold Update_chunk cs ctx) = is512 ctx"
  using assms
proof (induction cs arbitrary: ctx)
  case Nil
  then show ?case by simp
next
  case (Cons c cs)
  have dv: "64 dvd length c" and rest: "\<forall>c\<in>set cs. 64 dvd length c"
    using Cons.prems(1) by simp_all
  note u = Update_aligned [OF Cons.prems(2,3), of c]
  have len0: "ctx_len (Update_chunk c ctx) = 0"
    using dv by (simp add: u(2))
  have "ctx_state (fold Update_chunk cs (Update_chunk c ctx)) = absorb_stream (concat cs) (ctx_state (Update_chunk c ctx))
       \<and> ctx_len (fold Update_chunk cs (Update_chunk c ctx)) = 0 \<and> length (ctx_m (fold Update_chunk cs (Update_chunk c ctx))) = 64
       \<and> is512 (fold Update_chunk cs (Update_chunk c ctx)) = is512 (Update_chunk c ctx)"
    by (rule Cons.IH [OF rest len0 u(4)])
  then show ?case
    using dv by (simp add: u(1,5) absorb_stream_append)
qed

lemma Init_facts:
  assumes "ctx_ok ctx0"
  shows "ctx_state (GOSTR3411_2012_CTX_Init ctx0 b) = (iv_of b, replicate 64 0, replicate 64 0)"
    and "ctx_len (GOSTR3411_2012_CTX_Init ctx0 b) = 0"
    and "length (ctx_m (GOSTR3411_2012_CTX_Init ctx0 b)) = 64"
    and "is512 (GOSTR3411_2012_CTX_Init ctx0 b) = b"
  using assms by (simp_all add: GOSTR3411_2012_CTX_Init_def ctx_state_def ctx_ok_def block_ok_def iv_of_def)

lemma stream_state:
  assumes ok: "ctx_ok ctx0" and al: "\<forall>c\<in>set (butlast chunks). 64 dvd length c"
  shows "ctx_state (stream_updates b ctx0 chunks)
           = absorb_stream (concat chunks) (iv_of b, replicate 64 0, replicate 64 0)"
    and "ctx_len (stream_updates b ctx0 chunks) = length (concat chunks) mod 64"
    and "take (length (concat chunks) mod 64) (ctx_m (stream_updates b ctx0 chunks))
           = rev (drop (length (concat chunks) - length (concat chunks) mod 64) (concat chunks))"
    and "length (ctx_m (stream_updates b ctx0 chunks)) = 64"
    and "is512 (stream_updates b ctx0 chunks) = b"
proof -
  let ?i = "GOSTR3411_2012_CTX_Init ctx0 b"
  let ?ctx = "stream_updates b ctx0 chunks"
  let ?T = "concat chunks"
  let ?st0 = "(iv_of b, replicate 64 (0 :: byte), replicate 64 (0 :: byte))"
  note i = Init_facts [OF ok, of b]
  have "ctx_state ?ctx = absorb_stream ?T ?st0
      \<and> ctx_len ?ctx = length ?T mod 64
      \<and> take (length ?T mod 64) (ctx_m ?ctx) = rev (drop (length ?T - length ?T mod 64) ?T)
      \<and> length (ctx_m ?ctx) = 64 \<and> is512 ?ctx = b"
  proof (cases chunks rule: rev_cases)
    case Nil
    then show ?thesis
      by (simp add: i stream_updates_def)
  next
    case (snoc cs c)
    let ?p = "fold Update_chunk cs ?i"
    have al': "\<forall>c\<in>set cs. 64 dvd length c"
      using al snoc by simp
    note f = fold_aligned [OF al' i(2,3)]
    have p0: "ctx_len ?p = 0" and pm: "length (ctx_m ?p) = 64"
      using f by simp_all
    note u = Update_aligned [OF p0 pm, of c]
    have dv: "64 dvd length (concat cs)"
      using al' by (induction cs) simp_all
    have c: "?ctx = Update_chunk c ?p"
      by (simp add: snoc stream_updates_def)
    have T: "?T = concat cs @ c"
      by (simp add: snoc)
    have md: "length ?T mod 64 = length c mod 64"
      using dv by (simp add: T mod_add_left_eq [symmetric] del: mod_add_left_eq) 
    have "length c mod 64 \<le> length c"
      by (rule mod_less_eq_dividend)
    then have dr: "drop (length ?T - length ?T mod 64) ?T = drop (length c - length c mod 64) c"
      unfolding md by (simp add: T)
    have "ctx_state ?ctx = absorb_stream c (absorb_stream (concat cs) ?st0)"
      using f u(1) by (simp only: c i(1))
    then have "ctx_state ?ctx = absorb_stream ?T ?st0"
      by (simp only: T absorb_stream_append [OF dv])
    moreover have "ctx_len ?ctx = length ?T mod 64"
      by (simp only: c u(2) md)
    moreover have "take (length ?T mod 64) (ctx_m ?ctx) = rev (drop (length ?T - length ?T mod 64) ?T)"
      by (simp only: dr) (simp only: md c u(3))
    moreover have "length (ctx_m ?ctx) = 64"
      by (simp only: c u(4))
    moreover have "is512 ?ctx = b"
      using f by (simp only: c u(5) i(4))
    ultimately show ?thesis
      by blast
  qed
  then show "ctx_state ?ctx = absorb_stream ?T ?st0"
    and "ctx_len ?ctx = length ?T mod 64"
    and "take (length ?T mod 64) (ctx_m ?ctx) = rev (drop (length ?T - length ?T mod 64) ?T)"
    and "length (ctx_m ?ctx) = 64"
    and "is512 ?ctx = b"
    by simp_all
qed

subsection \<open>The final compressions and the digest\<close>

lemma length_padded [simp]: "length rest \<le> 63 \<Longrightarrow> length (padded rest) = 64"
  by (simp add: padded_def)

lemma length_H_final:
  "length h = 64 \<Longrightarrow> length N = 64 \<Longrightarrow> length s = 64 \<Longrightarrow> length m = 64 \<Longrightarrow>
     length (H_final h N s m l) = 64"
  by (simp add: H_final_def Let_def)

lemma Finish_ctx_h:
  "ctx_h (Finish_ctx ctx) = H_final (ctx_h ctx) (ctx_N ctx) (ctx_s ctx) (Finish_block (replicate 64 0) ctx) (ctx_len ctx)"
  by (simp add: Finish_ctx_def H_final_def Let_def)

lemma Finish_ctx_is512 [simp]: "is512 (Finish_ctx ctx) = is512 ctx"
  by (simp add: Finish_ctx_def Let_def)

lemma Finish_digest:
  assumes "length (ctx_h (Finish_ctx ctx)) = 64"
  shows "fst (GOSTR3411_2012_CTX_Finish ctx)
           = rev (take (if is512 ctx then 64 else 32) (ctx_h (Finish_ctx ctx)))"
proof -
  let ?h = "ctx_h (Finish_ctx ctx)"
  let ?sz = "if is512 ctx then 64 else 32 :: nat"
  have "?sz \<le> length ?h"
    using assms by simp
  then have "map (\<lambda>i. ?h ! (?sz - i - 1)) [0..<?sz] = rev (take ?sz ?h)"
    by (rule map_rev_index)
  then show ?thesis
    by (simp add: GOSTR3411_2012_CTX_Finish_def Let_def)
qed

lemma H_stream:
  assumes iv: "length iv = 64"
    and st: "absorb_stream T (iv, replicate 64 0, replicate 64 0) = (h, N, s)"
  shows "H iv (rev T) (length T)
           = H_final h N s (padded (rev (drop (length T - length T mod 64) T))) (length T mod 64)"
    and "length (H iv (rev T) (length T)) = 64"
proof -
  let ?l = "length T mod 64"
  obtain m' where m': "length m' = 64"
    and loop: "H_stage2 (rev T @ []) (length T) iv (replicate 64 0) (replicate 64 0) (replicate 64 0)
                 = (h, N, s, m', ?l)"
    using H_stage2_stream [OF _ st, of "replicate 64 0" "[]"] by auto
  have len: "length h = 64" "length N = 64" "length s = 64"
    using absorb_stream_lengths [OF _ _ _ st] iv by simp_all
  have l64: "?l < 64" and ll: "?l \<le> length (rev T)"
    by (simp_all add: mod_less_eq_dividend)
  have blk: "H_stage3_block m' (rev T) ?l = padded (rev (drop (length T - ?l) T))"
    using H_stage3_block_eq [OF m' l64 ll] by (simp add: take_rev)
  have lp: "length (padded (rev (drop (length T - ?l) T))) = 64"
    using l64 by (simp add: mod_less_eq_dividend)
  have "H iv (rev T) (length T)
          = take 64 (H_final h N s (padded (rev (drop (length T - ?l) T))) ?l)"
    using loop iv by (simp add: H_def blk)
  then show "H iv (rev T) (length T)
           = H_final h N s (padded (rev (drop (length T - ?l) T))) ?l"
    using length_H_final [OF len lp, of ?l] by simp
  then show "length (H iv (rev T) (length T)) = 64"
    using length_H_final [OF len lp, of ?l] by simp
qed

lemma streaming_rev_oneshot:
  assumes ok: "ctx_ok ctx0" and al: "\<forall>c\<in>set (butlast chunks). 64 dvd length c"
  shows "streaming_digest b ctx0 chunks = rev (oneshot_digest b (rev (concat chunks)))"
proof -
  let ?T = "concat chunks"
  let ?ctx = "stream_updates b ctx0 chunks"
  let ?l = "length ?T mod 64"
  note s = stream_state [OF ok al, of b]
  obtain h N s' where st: "absorb_stream ?T (iv_of b, replicate 64 0, replicate 64 0) = (h, N, s')"
    by (cases "absorb_stream ?T (iv_of b, replicate 64 0, replicate 64 0)")
  have iv: "length (iv_of b) = 64"
    by (simp add: iv_of_def)
  note H = H_stream [OF iv st]
  have hns: "ctx_h ?ctx = h" "ctx_N ?ctx = N" "ctx_s ?ctx = s'"
    using s(1) st by (simp_all add: ctx_state_def)
  have l64: "?l < 64" by simp
  have fb: "Finish_block (replicate 64 0) ?ctx = padded (rev (drop (length ?T - ?l) ?T))"
    using Finish_block_eq [of "replicate 64 0" ?ctx] s(2,3,4) l64 by simp
  have fh: "ctx_h (Finish_ctx ?ctx) = H (iv_of b) (rev ?T) (length ?T)"
    by (simp only: Finish_ctx_h hns fb s(2) H(1))
  have "streaming_digest b ctx0 chunks = rev (take (if b then 64 else 32) (H (iv_of b) (rev ?T) (length ?T)))"
    using Finish_digest [of ?ctx] H(2) by (simp add: streaming_digest_def fh s(5))
  moreover have "oneshot_digest b (rev ?T) = take (if b then 64 else 32) (H (iv_of b) (rev ?T) (length ?T))"
    using H(2) by (cases b) (simp_all add: oneshot_digest_def GOSTR3411_2012_512_def GOSTR3411_2012_256_def iv_of_def)
  ultimately show ?thesis
    by simp
qed


section \<open>Properties of the signature engine\<close>

subsection \<open>Big-number calls\<close>

lemma BN_mod_nonneg: "0 \<le> a \<Longrightarrow> 0 < m \<Longrightarrow> BN_mod a m = a mod m"
  by (cases "a = 0") (simp_all add: BN_mod_def)

lemma BN_mod_inverse_Some:
  assumes "BN_mod_inverse a n = Some x"
  shows "0 \<le> x \<and> x < n \<and> (a * x) mod n = 1"
proof -
  from assms have n: "1 < n" and g: "gcd (a mod n) n = 1"
    and x: "x = fst (bezw (nat (a mod n)) (nat n)) mod n"
    by (auto simp: BN_mod_inverse_def split: if_splits)
  let ?u = "fst (bezw (nat (a mod n)) (nat n))"
  let ?v = "snd (bezw (nat (a mod n)) (nat n))"
  have "int (gcd (nat (a mod n)) (nat n)) = gcd (a mod n) n"
    using n by (simp add: gcd_int_def)
  then have "?u * (a mod n) + ?v * n = 1"
    using bezw_aux [of "nat (a mod n)" "nat n"] n g by simp
  then have "(?u * (a mod n) + ?v * n) mod n = 1 mod n"
    by simp
  then have "(?u * (a mod n)) mod n = 1"
    using n by simp
  then have "(a * x) mod n = 1"
    unfolding x by (simp add: mod_mult_right_eq mult.commute mod_mult_left_eq)
  moreover have "0 \<le> x" "x < n"
    using n by (simp_all add: x)
  ultimately show ?thesis
    by simp
qed

lemma BN_mod_inverse_zero: "BN_mod_inverse 0 n = None"
  by (simp add: BN_mod_inverse_def)

subsection \<open>Curve calls\<close>

lemma EC_POINT_add_Infinity_right [simp]: "EC_POINT_add c P Infinity = P"
  by (cases P) simp_all

lemma ec_mul_0 [simp]: "ec_mul c 0 P = Infinity"
  by (simp add: ec_mul_def ec_mul_nat.simps)

lemma odd_prime_odd: "odd_prime p \<Longrightarrow> odd p"
proof
  assume p: "odd_prime p" and "even p"
  then have "2 dvd p" "2 \<in> {2..<p}"
    by (simp_all add: odd_prime_def)
  with p show False
    by (auto simp: odd_prime_def)
qed

lemma odd_prime_square:
  assumes p: "odd_prime p" and y: "0 \<le> y" "y < p" and sq: "(y * y) mod p = 0"
  shows "y = 0"
proof (rule ccontr)
  assume "y \<noteq> 0"
  with y have y0: "0 < y" by simp
  let ?g = "gcd y p"
  have "?g dvd p" "?g dvd y" by simp_all
  have "0 < ?g" using y0 by simp
  have "?g \<le> y" using y0 \<open>?g dvd y\<close> by (simp add: zdvd_imp_le)
  have "?g = 1"
  proof (rule ccontr)
    assume "?g \<noteq> 1"
    with \<open>0 < ?g\<close> have "2 \<le> ?g" by linarith
    with \<open>?g \<le> y\<close> y have "?g \<in> {2..<p}" by simp
    with p \<open>?g dvd p\<close> show False
      by (auto simp: odd_prime_def)
  qed
  then have "coprime p y"
    by (simp add: coprime_iff_gcd_eq_1 gcd.commute)
  moreover have "p dvd y * y"
    using sq by (simp add: dvd_eq_mod_eq_0)
  ultimately have "p dvd y"
    by (simp add: coprime_dvd_mult_left_iff)
  then have "p \<le> y" using y0 by (simp add: zdvd_imp_le)
  with y show False by simp
qed

lemma BN_mod_sqrt_None: "BN_mod_sqrt a p = None \<longleftrightarrow> \<not> (\<exists>y\<in>{0..<p}. (y * y) mod p = a mod p)"
  by (auto simp: BN_mod_sqrt_def find_None_iff)

lemma BN_mod_sqrt_Some:
  "BN_mod_sqrt a p = Some y \<Longrightarrow> 0 \<le> y \<and> y < p \<and> (y * y) mod p = a mod p"
  by (auto simp: BN_mod_sqrt_def find_Some_iff)

lemma neg_root: "((p - y) * (p - y)) mod p = (y * y) mod (p :: int)"
proof -
  have "(p - y) * (p - y) = y * y + p * (p - 2 * y)"
    by (simp add: algebra_simps)
  then show ?thesis
    by simp
qed

lemma set_compressed_None_iff:
  assumes p: "odd_prime (curve_p c)"
  shows "EC_POINT_set_compressed_coordinates_GFp c x y_bit = None \<longleftrightarrow> \<not> valid_x c x y_bit"
proof -
  let ?p = "curve_p c"
  let ?rhs = "(x mod ?p) * (x mod ?p) * (x mod ?p) + curve_a c * (x mod ?p) + curve_b c"
  have odd: "odd ?p" by (rule odd_prime_odd [OF p])
  show ?thesis
  proof (cases "BN_mod_sqrt ?rhs ?p")
    case None
    then have "\<not> valid_x c x y_bit"
      by (auto simp: BN_mod_sqrt_None valid_x_def)
    with None show ?thesis
      by (simp add: EC_POINT_set_compressed_coordinates_GFp_def)
  next
    case (Some y)
    note y = BN_mod_sqrt_Some [OF Some]
    show ?thesis
    proof (cases "y_bit = odd y")
      case True
      with y have "valid_x c x y_bit"
        by (auto simp: valid_x_def)
      with Some True show ?thesis
        by (simp add: EC_POINT_set_compressed_coordinates_GFp_def)
    next
      case False
      show ?thesis
      proof (cases "y = 0")
        case True
        have "\<not> valid_x c x y_bit"
        proof
          assume "valid_x c x y_bit"
          then obtain z where z: "0 \<le> z" "z < ?p" "(z * z) mod ?p = ?rhs mod ?p" "odd z = y_bit"
            by (auto simp: valid_x_def)
          from y True have "?rhs mod ?p = 0" by simp
          with z have "z = 0"
            using odd_prime_square [OF p, of z] by simp
          with z False True show False by simp
        qed
        with Some False True show ?thesis
          by (simp add: EC_POINT_set_compressed_coordinates_GFp_def)
      next
        case nz: False
        have "0 \<le> ?p - y" "?p - y < ?p" "((?p - y) * (?p - y)) mod ?p = ?rhs mod ?p"
          "odd (?p - y) = y_bit"
          using y nz False odd by (simp_all add: neg_root)
        then have "valid_x c x y_bit"
          unfolding valid_x_def by (intro bexI [of _ "?p - y"]) simp_all
        with Some False nz show ?thesis
          by (simp add: EC_POINT_set_compressed_coordinates_GFp_def)
      qed
    qed
  qed
qed

subsection \<open>What Verify computes\<close>

text \<open>
  With a non-negative digest that is invertible modulo \<open>q\<close>, \<open>Verify\<close> forms \<open>h\<close>,
  \<open>z1\<close>, \<open>z2\<close> and \<open>C = z1 P + z2 Q\<close> and compares \<open>C\<^sub>x mod q\<close> with \<open>r\<close>; when \<open>C\<close>
  is the point at infinity it compares \<open>0\<close> with \<open>r\<close> instead.
\<close>

lemma BN_mod_inverse_one:
  assumes "1 < n"
  shows "BN_mod_inverse 1 n = Some 1"
proof -
  have n: "0 < nat n" "Suc 0 mod nat n = Suc 0" "Suc 0 div nat n = 0"
    using assms by simp_all
  have "bezw (nat n) (Suc 0) = (0, 1)"
    by (simp add: bezw_non_0 [of "Suc 0" "nat n"])
  then have "bezw (Suc 0) (nat n) = (1, 0)"
    unfolding bezw_non_0 [OF n(1), of "Suc 0"] n(2,3) by simp
  then show ?thesis
    using assms by (simp add: BN_mod_inverse_def)
qed

lemma Verify_steps:
  assumes e: "0 \<le> e" and inv: "BN_mod_inverse (e mod curve_q c) (curve_q c) = Some h"
  shows "Verify c Q e r s =
           (case EC_POINT_mul c (Some ((s * h) mod curve_q c)) (Some (Q, ((curve_q c - r) * h) mod curve_q c)) of
              Point Cx Cy \<Rightarrow> BN_mod Cx (curve_q c) = r
            | Infinity \<Rightarrow> r = 0)"
proof -
  have q: "1 < curve_q c"
    using inv by (auto simp: BN_mod_inverse_def split: if_splits)
  then have m: "BN_mod e (curve_q c) = e mod curve_q c"
    using e by (simp add: BN_mod_nonneg)
  have p: "Verify_point c Q e r s
        = EC_POINT_mul c (Some ((s * h) mod curve_q c)) (Some (Q, ((curve_q c - r) * h) mod curve_q c))"
    using q by (simp add: Verify_point_def Let_def m inv BN_mod_mul_def BN_nnmod_def BN_sub_def)
  show ?thesis
    using q by (simp add: Verify_def Let_def p GetXY_def EC_POINT_get_affine_coordinates_GFp_def
        BN_cmp_def BN_mod_def split: EC_POINT.split)
qed

text \<open>With a digest that is \<open>0\<close> modulo \<open>q\<close>, \<open>Verify\<close> accepts exactly when \<open>r = 0\<close>.\<close>

lemma Verify_noninvertible:
  assumes q: "1 < curve_q c" and e: "BN_mod e (curve_q c) = 0"
  shows "Verify c Q e r s = (r = 0)"
proof -
  have "Verify_point c Q e r s = Infinity"
    using q by (simp add: Verify_point_def Let_def e BN_mod_inverse_zero BN_mod_mul_def
        BN_nnmod_def EC_POINT_mul_def)
  then show ?thesis
    using q by (auto simp: Verify_def Let_def GetXY_def EC_POINT_get_affine_coordinates_GFp_def
        BN_cmp_def BN_mod_def)
qed

subsection \<open>Where the loops stop\<close>

lemma H_stage2_remainder:
  "H_stage2 buf l h N s m = (h', N', s', m', l') \<Longrightarrow> l' = l mod 64"
proof (induction buf l h N s m rule: H_stage2.induct)
  case (1 buf l h N s m)
  show ?case
  proof (cases "64 \<le> l")
    case True
    with "1.prems" have "H_stage2 buf (l - 64) (gN N h (memcpy m 0 (drop (l - 64) buf) 64)) (Add N 512)
        (block_add (memcpy m 0 (drop (l - 64) buf) 64) s) (memcpy m 0 (drop (l - 64) buf) 64)
          = (h', N', s', m', l')"
      by (subst (asm) H_stage2.simps) simp
    with True "1.IH" have "l' = (l - 64) mod 64"
      by simp
    with True show ?thesis
      by (simp add: le_mod_geq)
  next
    case False
    with "1.prems" show ?thesis
      by (subst (asm) H_stage2.simps) simp
  qed
qed

lemma Update_loop_remainder: "fst (snd (Update_loop buf len ctx)) = len mod 64"
proof (induction buf len ctx rule: Update_loop.induct)
  case (1 buf len ctx)
  show ?case
  proof (cases "64 \<le> len")
    case True
    with "1.IH" show ?thesis
      by (subst Update_loop.simps) (simp add: le_mod_geq)
  next
    case False
    then show ?thesis
      by (subst Update_loop.simps) simp
  qed
qed

lemma Update_ctx_len: "0 < len \<Longrightarrow> ctx_len (GOSTR3411_2012_CTX_Update buf len ctx) < 64"
proof -
  assume len: "0 < len"
  obtain b1 l1 c1 where p: "(if ctx_len ctx > 0 then Update_pending buf len ctx else (buf, len, ctx)) = (b1, l1, c1)"
    by (metis prod_cases3)
  obtain b2 l2 c2 where l: "Update_loop b1 l1 c1 = (b2, l2, c2)"
    by (metis prod_cases3)
  have "l2 = l1 mod 64"
    using Update_loop_remainder [of b1 l1 c1] l by simp
  then show ?thesis
    using len by (simp add: GOSTR3411_2012_CTX_Update_def p l Update_carry_def)
qed

text \<open>
  The pending block is compressed by the next call even when that call does not fill it:
  after two one-byte updates the counter has advanced by a whole block and nothing is
  pending.
\<close>

lemma Update_partial_block:
  assumes "ctx_ok ctx0"
  shows "ctx_len (stream_updates b ctx0 [[x], [y]]) = 0
       \<and> ctx_N (stream_updates b ctx0 [[x], [y]]) = Add (replicate 64 0) 512"
proof -
  let ?i = "GOSTR3411_2012_CTX_Init ctx0 b"
  note i = Init_facts [OF assms, of b]
  note u = Update_aligned [OF i(2,3), of "[x]"]
  have n: "ctx_N (Update_chunk [x] ?i) = replicate 64 0"
    using u(1) i(1) by (simp add: ctx_state_def)
  have l: "ctx_len (Update_chunk [x] ?i) = 1"
    using u(2) by simp
  have "Update_loop [] 0 c = ([], 0, c)" for c
    by (subst Update_loop.simps) simp
  then show ?thesis
    using n l by (simp add: stream_updates_def GOSTR3411_2012_CTX_Update_def [of "[y]"]
        Update_pending_def Update_carry_def absorb_def Let_def)
qed

subsection \<open>What RecoverPublicKey computes\<close>

text \<open>
  Over an odd prime field, \<open>RecoverPublicKey\<close> returns no point exactly when \<open>r\<close> is
  not the x-coordinate of a curve point with the requested parity. Otherwise, with \<open>C\<close>
  the decompressed point, \<open>h = e mod q\<close> for a non-negative digest \<open>e\<close>, and where \<open>r\<close>
  has an inverse \<open>r1\<close> modulo \<open>q\<close>, it returns \<open>r1 (s P - h C)\<close>; the code adds
  \<open>(q - h) C\<close> for \<open>- h C\<close>, and the two are equal when \<open>q C\<close> is the point at infinity.
\<close>

lemma RecoverPublicKey_invertible:
  assumes "odd_prime (curve_p c)"
  shows "(RecoverPublicKey c e r s isNegativeY = None \<longleftrightarrow> \<not> valid_x c r isNegativeY)
       \<and> (\<forall>C r1. EC_POINT_set_compressed_coordinates_GFp c r isNegativeY = Some C
             \<longrightarrow> 0 \<le> e \<longrightarrow> 0 < curve_q c
             \<longrightarrow> BN_mod_inverse r (curve_q c) = Some r1
             \<longrightarrow> ec_mul c (curve_q c - e mod curve_q c) C = ec_neg c (ec_mul c (e mod curve_q c) C)
             \<longrightarrow> RecoverPublicKey c e r s isNegativeY
                   = Some (ec_mul c r1
                       (EC_POINT_add c (ec_mul c s (generator c)) (ec_neg c (ec_mul c (e mod curve_q c) C)))))"
proof -
  have "RecoverPublicKey c e r s isNegativeY = None
          \<longleftrightarrow> EC_POINT_set_compressed_coordinates_GFp c r isNegativeY = None"
    by (simp add: RecoverPublicKey_def Let_def split: option.split)
  then have none: "RecoverPublicKey c e r s isNegativeY = None \<longleftrightarrow> \<not> valid_x c r isNegativeY"
    by (simp add: set_compressed_None_iff [OF assms])
  have some: "RecoverPublicKey c e r s isNegativeY
        = Some (ec_mul c r1
            (EC_POINT_add c (ec_mul c s (generator c)) (ec_neg c (ec_mul c (e mod curve_q c) C))))"
    if C: "EC_POINT_set_compressed_coordinates_GFp c r isNegativeY = Some C"
      and e: "0 \<le> e" and q: "0 < curve_q c"
      and r1: "BN_mod_inverse r (curve_q c) = Some r1"
      and g: "ec_mul c (curve_q c - e mod curve_q c) C = ec_neg c (ec_mul c (e mod curve_q c) C)"
    for C r1
    using e q by (simp add: RecoverPublicKey_def Let_def C r1 EC_POINT_mul_def BN_sub_def
        BN_mod_nonneg g)
  show ?thesis
    using none some by blast
qed

text \<open>
  On the small curve: \<open>r = 6\<close> with even parity decompresses to \<open>(6, 2)\<close>, and from the
  signature \<open>(6, 6)\<close> of the digest \<open>2\<close> the public key \<open>3 P = (7, 10)\<close> is recovered.
\<close>

lemma RecoverPublicKey_small_curve:
  "odd_prime (curve_p small_curve) \<and> valid_x small_curve 6 False
   \<and> EC_POINT_set_compressed_coordinates_GFp small_curve 6 False = Some (Point 6 2)
   \<and> BN_mod_inverse 6 (curve_q small_curve) = Some 6
   \<and> ec_mul small_curve (curve_q small_curve - 2 mod curve_q small_curve) (Point 6 2)
       = ec_neg small_curve (ec_mul small_curve (2 mod curve_q small_curve) (Point 6 2))
   \<and> RecoverPublicKey small_curve 2 6 6 False
       = Some (ec_mul small_curve 6
           (EC_POINT_add small_curve (ec_mul small_curve 6 (generator small_curve))
              (ec_neg small_curve (ec_mul small_curve (2 mod curve_q small_curve) (Point 6 2)))))
   \<and> RecoverPublicKey small_curve 2 6 6 False = Some (Point 7 10)"
proof -
  have p: "odd_prime (curve_p small_curve)"
    by code_simp
  have C: "EC_POINT_set_compressed_coordinates_GFp small_curve 6 False = Some (Point 6 2)"
    by code_simp
  have r1: "BN_mod_inverse 6 (curve_q small_curve) = Some 6"
    by code_simp
  have g: "ec_mul small_curve (curve_q small_curve - 2 mod curve_q small_curve) (Point 6 2)
       = ec_neg small_curve (ec_mul small_curve (2 mod curve_q small_curve) (Point 6 2))"
    by code_simp
  have q: "0 < curve_q small_curve"
    by (simp add: small_curve_def)
  have v: "RecoverPublicKey small_curve 2 6 6 False = Some (Point 7 10)"
    by code_simp
  note t = RecoverPublicKey_invertible [OF p, of 2 6 6 False]
  have "valid_x small_curve 6 False"
    using t v by simp
  moreover have "RecoverPublicKey small_curve 2 6 6 False
       = Some (ec_mul small_curve 6
           (EC_POINT_add small_curve (ec_mul small_curve 6 (generator small_curve))
              (ec_neg small_curve (ec_mul small_curve (2 mod curve_q small_curve) (Point 6 2)))))"
    using t C r1 g q by simp
  ultimately show ?thesis
    using p C r1 g v by simp
qed


section \<open>Evaluating the compression step on concrete blocks\<close>

text \<open>
  Rewrite rules that compute the bit operations on numerals through \<^const>\<open>xor_num\<close>,
  \<^const>\<open>and_num\<close> and \<^const>\<open>take_bit_num\<close>, the table entries, and the equations of
  the functions above. Together they evaluate \<open>gN\<close> on three literal blocks.
\<close>

lemma word_xor_num:
  "(numeral m :: 'a::len word) XOR numeral n = (case xor_num m n of None \<Rightarrow> 0 | Some q \<Rightarrow> numeral q)"
proof -
  have "(numeral m :: 'a word) XOR numeral n = word_of_int (numeral m XOR numeral n)"
    by (simp only: word_no_log_defs)
  also have "\<dots> = (case xor_num m n of None \<Rightarrow> 0 | Some q \<Rightarrow> numeral q)"
    by (simp only: numeral_xor_num) (simp split: option.split)
  finally show ?thesis .
qed

lemma word_and_num:
  "(numeral m :: 'a::len word) AND numeral n = (case and_num m n of None \<Rightarrow> 0 | Some q \<Rightarrow> numeral q)"
proof -
  have "(numeral m :: 'a word) AND numeral n = word_of_int (numeral m AND numeral n)"
    by (simp only: word_no_log_defs)
  also have "\<dots> = (case and_num m n of None \<Rightarrow> 0 | Some q \<Rightarrow> numeral q)"
    by (simp only: numeral_and_num) (simp split: option.split)
  finally show ?thesis .
qed

lemma word_bit_1:
  "(1 :: 'a::len word) XOR numeral n = (case xor_num num.One n of None \<Rightarrow> 0 | Some q \<Rightarrow> numeral q)"
  "(numeral n :: 'a::len word) XOR 1 = (case xor_num n num.One of None \<Rightarrow> 0 | Some q \<Rightarrow> numeral q)"
  "(1 :: 'a::len word) XOR 1 = 0"
  "(1 :: 'a::len word) AND numeral n = (case and_num num.One n of None \<Rightarrow> 0 | Some q \<Rightarrow> numeral q)"
  "(numeral n :: 'a::len word) AND 1 = (case and_num n num.One of None \<Rightarrow> 0 | Some q \<Rightarrow> numeral q)"
  "(1 :: 'a::len word) AND 1 = 1"
  using word_xor_num [of num.One n, where 'a = 'a] word_xor_num [of n num.One, where 'a = 'a]
    word_and_num [of num.One n, where 'a = 'a] word_and_num [of n num.One, where 'a = 'a]
  by (simp_all only: numeral_One) simp_all

lemma word_bit_0:
  "(0 :: 'a::len word) XOR x = x" "x XOR (0 :: 'a::len word) = x"
  "(0 :: 'a::len word) AND x = 0" "x AND (0 :: 'a::len word) = 0"
  by simp_all

lemma byte_mask_nonzero:
  "((0x80 :: byte) = 0) = False" "((0x40 :: byte) = 0) = False" "((0x20 :: byte) = 0) = False"
  "((0x10 :: byte) = 0) = False" "((0x08 :: byte) = 0) = False" "((0x04 :: byte) = 0) = False"
  "((0x02 :: byte) = 0) = False" "((0x01 :: byte) = 0) = False" "((0 :: byte) = 0) = True"
  by simp_all

lemma byte_mask_shift:
  "drop_bit (numeral num.One) (0x80 :: byte) = 0x40" "drop_bit (numeral num.One) (0x40 :: byte) = 0x20"
  "drop_bit (numeral num.One) (0x20 :: byte) = 0x10" "drop_bit (numeral num.One) (0x10 :: byte) = 0x08"
  "drop_bit (numeral num.One) (0x08 :: byte) = 0x04" "drop_bit (numeral num.One) (0x04 :: byte) = 0x02"
  "drop_bit (numeral num.One) (0x02 :: byte) = 0x01" "drop_bit (numeral num.One) (0x01 :: byte) = 0"
  by simp_all

lemma nth_eval:
  "(x # xs) ! 0 = x" "(x # xs) ! numeral v = xs ! pred_numeral v"
  by (simp_all add: numeral_eq_Suc)

lemma upt_eval:
  "[0..<8] = [0, 1, 2, 3, 4, 5, 6, 7]"
  "[0..<12] = [0, 1, 2, 3, 4, 5, 6, 7, 8, 9, 10, 11]"
  by (simp_all add: upt_rec)

lemma byte_of_drop:
  "(ucast (drop_bit k (w :: 64 word)) :: byte) = word_of_nat (take_bit 8 (drop_bit k (unat w)))"
  by (rule bit_word_eqI) (simp add: bit_simps)

lemma htobe64_eval: "htobe64 w = be_split (unat w)"
  using byte_of_drop [of 0 w] by (simp add: htobe64_def be_split_def byte_of_drop)

lemma unat_eval:
  "unat (numeral n :: 64 word) = take_bit 64 (numeral n)" "unat (0 :: 64 word) = 0"
  "unat (1 :: 64 word) = numeral num.One"
  by simp_all

lemma drop_bit_nat_eval:
  "drop_bit 0 (x :: nat) = x"
  "drop_bit (numeral l) (0 :: nat) = 0"
  "drop_bit (numeral l) (numeral (num.Bit0 k) :: nat) = drop_bit (pred_numeral l) (numeral k)"
  "drop_bit (numeral l) (numeral (num.Bit1 k) :: nat) = drop_bit (pred_numeral l) (numeral k)"
  "drop_bit (numeral l) (numeral num.One :: nat) = 0"
  by (simp_all only: drop_bit_numeral_bit0 drop_bit_numeral_bit1 numeral_One) simp_all

lemma take_bit_nat_eval:
  "take_bit (numeral l) (numeral k :: nat) = (case take_bit_num (numeral l) k of None \<Rightarrow> 0 | Some q \<Rightarrow> numeral q)"
  "take_bit a (0 :: nat) = 0"
  by (simp_all add: take_bit_numeral_numeral)

lemma of_nat_eval:
  "(word_of_nat (numeral q) :: byte) = numeral q" "(word_of_nat 0 :: byte) = 0"
  by simp_all

lemma one_eval:
  "(1 :: nat) = numeral num.One" "(numeral num.One :: byte) = 1" "(numeral num.One :: 64 word) = 1"
  by simp_all

text \<open>The entries of the three tables, one equation each.\<close>

lemma sbox_tbl_unat:
  "sbox_tbl ! unat (0 :: byte) = 0xFC" "sbox_tbl ! unat (1 :: byte) = 0xEE" "sbox_tbl ! unat (2 :: byte) = 0xDD"
  "sbox_tbl ! unat (3 :: byte) = 0x11" "sbox_tbl ! unat (4 :: byte) = 0xCF" "sbox_tbl ! unat (5 :: byte) = 0x6E"
  "sbox_tbl ! unat (6 :: byte) = 0x31" "sbox_tbl ! unat (7 :: byte) = 0x16" "sbox_tbl ! unat (8 :: byte) = 0xFB"
  "sbox_tbl ! unat (9 :: byte) = 0xC4" "sbox_tbl ! unat (10 :: byte) = 0xFA" "sbox_tbl ! unat (11 :: byte) = 0xDA"
  "sbox_tbl ! unat (12 :: byte) = 0x23" "sbox_tbl ! unat (13 :: byte) = 0xC5" "sbox_tbl ! unat (14 :: byte) = 0x04"
  "sbox_tbl ! unat (15 :: byte) = 0x4D" "sbox_tbl ! unat (16 :: byte) = 0xE9" "sbox_tbl ! unat (17 :: byte) = 0x77"
  "sbox_tbl ! unat (18 :: byte) = 0xF0" "sbox_tbl ! unat (19 :: byte) = 0xDB" "sbox_tbl ! unat (20 :: byte) = 0x93"
  "sbox_tbl ! unat (21 :: byte) = 0x2E" "sbox_tbl ! unat (22 :: byte) = 0x99" "sbox_tbl ! unat (23 :: byte) = 0xBA"
  "sbox_tbl ! unat (24 :: byte) = 0x17" "sbox_tbl ! unat (25 :: byte) = 0x36" "sbox_tbl ! unat (26 :: byte) = 0xF1"
  "sbox_tbl ! unat (27 :: byte) = 0xBB" "sbox_tbl ! unat (28 :: byte) = 0x14" "sbox_tbl ! unat (29 :: byte) = 0xCD"
  "sbox_tbl ! unat (30 :: byte) = 0x5F" "sbox_tbl ! unat (31 :: byte) = 0xC1" "sbox_tbl ! unat (32 :: byte) = 0xF9"
  "sbox_tbl ! unat (33 :: byte) = 0x18" "sbox_tbl ! unat (34 :: byte) = 0x65" "sbox_tbl ! unat (35 :: byte) = 0x5A"
  "sbox_tbl ! unat (36 :: byte) = 0xE2" "sbox_tbl ! unat (37 :: byte) = 0x5C" "sbox_tbl ! unat (38 :: byte) = 0xEF"
  "sbox_tbl ! unat (39 :: byte) = 0x21" "sbox_tbl ! unat (40 :: byte) = 0x81" "sbox_tbl ! unat (41 :: byte) = 0x1C"
  "sbox_tbl ! unat (42 :: byte) = 0x3C" "sbox_tbl ! unat (43 :: byte) = 0x42" "sbox_tbl ! unat (44 :: byte) = 0x8B"
  "sbox_tbl ! unat (45 :: byte) = 0x01" "sbox_tbl ! unat (46 :: byte) = 0x8E" "sbox_tbl ! unat (47 :: byte) = 0x4F"
  "sbox_tbl ! unat (48 :: byte) = 0x05" "sbox_tbl ! unat (49 :: byte) = 0x84" "sbox_tbl ! unat (50 :: byte) = 0x02"
  "sbox_tbl ! unat (51 :: byte) = 0xAE" "sbox_tbl ! unat (52 :: byte) = 0xE3" "sbox_tbl ! unat (53 :: byte) = 0x6A"
  "sbox_tbl ! unat (54 :: byte) = 0x8F" "sbox_tbl ! unat (55 :: byte) = 0xA0" "sbox_tbl ! unat (56 :: byte) = 0x06"
  "sbox_tbl ! unat (57 :: byte) = 0x0B" "sbox_tbl ! unat (58 :: byte) = 0xED" "sbox_tbl ! unat (59 :: byte) = 0x98"
  "sbox_tbl ! unat (60 :: byte) = 0x7F" "sbox_tbl ! unat (61 :: byte) = 0xD4" "sbox_tbl ! unat (62 :: byte) = 0xD3"
  "sbox_tbl ! unat (63 :: byte) = 0x1F" "sbox_tbl ! unat (64 :: byte) = 0xEB" "sbox_tbl ! unat (65 :: byte) = 0x34"
  "sbox_tbl ! unat (66 :: byte) = 0x2C" "sbox_tbl ! unat (67 :: byte) = 0x51" "sbox_tbl ! unat (68 :: byte) = 0xEA"
  "sbox_tbl ! unat (69 :: byte) = 0xC8" "sbox_tbl ! unat (70 :: byte) = 0x48" "sbox_tbl ! unat (71 :: byte) = 0xAB"
  "sbox_tbl ! unat (72 :: byte) = 0xF2" "sbox_tbl ! unat (73 :: byte) = 0x2A" "sbox_tbl ! unat (74 :: byte) = 0x68"
  "sbox_tbl ! unat (75 :: byte) = 0xA2" "sbox_tbl ! unat (76 :: byte) = 0xFD" "sbox_tbl ! unat (77 :: byte) = 0x3A"
  "sbox_tbl ! unat (78 :: byte) = 0xCE" "sbox_tbl ! unat (79 :: byte) = 0xCC" "sbox_tbl ! unat (80 :: byte) = 0xB5"
  "sbox_tbl ! unat (81 :: byte) = 0x70" "sbox_tbl ! unat (82 :: byte) = 0x0E" "sbox_tbl ! unat (83 :: byte) = 0x56"
  "sbox_tbl ! unat (84 :: byte) = 0x08" "sbox_tbl ! unat (85 :: byte) = 0x0C" "sbox_tbl ! unat (86 :: byte) = 0x76"
  "sbox_tbl ! unat (87 :: byte) = 0x12" "sbox_tbl ! unat (88 :: byte) = 0xBF" "sbox_tbl ! unat (89 :: byte) = 0x72"
  "sbox_tbl ! unat (90 :: byte) = 0x13" "sbox_tbl ! unat (91 :: byte) = 0x47" "sbox_tbl ! unat (92 :: byte) = 0x9C"
  "sbox_tbl ! unat (93 :: byte) = 0xB7" "sbox_tbl ! unat (94 :: byte) = 0x5D" "sbox_tbl ! unat (95 :: byte) = 0x87"
  "sbox_tbl ! unat (96 :: byte) = 0x15" "sbox_tbl ! unat (97 :: byte) = 0xA1" "sbox_tbl ! unat (98 :: byte) = 0x96"
  "sbox_tbl ! unat (99 :: byte) = 0x29" "sbox_tbl ! unat (100 :: byte) = 0x10" "sbox_tbl ! unat (101 :: byte) = 0x7B"
  "sbox_tbl ! unat (102 :: byte) = 0x9A" "sbox_tbl ! unat (103 :: byte) = 0xC7" "sbox_tbl ! unat (104 :: byte) = 0xF3"
  "sbox_tbl ! unat (105 :: byte) = 0x91" "sbox_tbl ! unat (106 :: byte) = 0x78" "sbox_tbl ! unat (107 :: byte) = 0x6F"
  "sbox_tbl ! unat (108 :: byte) = 0x9D" "sbox_tbl ! unat (109 :: byte) = 0x9E" "sbox_tbl ! unat (110 :: byte) = 0xB2"
  "sbox_tbl ! unat (111 :: byte) = 0xB1" "sbox_tbl ! unat (112 :: byte) = 0x32" "sbox_tbl ! unat (113 :: byte) = 0x75"
  "sbox_tbl ! unat (114 :: byte) = 0x19" "sbox_tbl ! unat (115 :: byte) = 0x3D" "sbox_tbl ! unat (116 :: byte) = 0xFF"
  "sbox_tbl ! unat (117 :: byte) = 0x35" "sbox_tbl ! unat (118 :: byte) = 0x8A" "sbox_tbl ! unat (119 :: byte) = 0x7E"
  "sbox_tbl ! unat (120 :: byte) = 0x6D" "sbox_tbl ! unat (121 :: byte) = 0x54" "sbox_tbl ! unat (122 :: byte) = 0xC6"
  "sbox_tbl ! unat (123 :: byte) = 0x80" "sbox_tbl ! unat (124 :: byte) = 0xC3" "sbox_tbl ! unat (125 :: byte) = 0xBD"
  "sbox_tbl ! unat (126 :: byte) = 0x0D" "sbox_tbl ! unat (127 :: byte) = 0x57" "sbox_tbl ! unat (128 :: byte) = 0xDF"
  "sbox_tbl ! unat (129 :: byte) = 0xF5" "sbox_tbl ! unat (130 :: byte) = 0x24" "sbox_tbl ! unat (131 :: byte) = 0xA9"
  "sbox_tbl ! unat (132 :: byte) = 0x3E" "sbox_tbl ! unat (133 :: byte) = 0xA8" "sbox_tbl ! unat (134 :: byte) = 0x43"
  "sbox_tbl ! unat (135 :: byte) = 0xC9" "sbox_tbl ! unat (136 :: byte) = 0xD7" "sbox_tbl ! unat (137 :: byte) = 0x79"
  "sbox_tbl ! unat (138 :: byte) = 0xD6" "sbox_tbl ! unat (139 :: byte) = 0xF6" "sbox_tbl ! unat (140 :: byte) = 0x7C"
  "sbox_tbl ! unat (141 :: byte) = 0x22" "sbox_tbl ! unat (142 :: byte) = 0xB9" "sbox_tbl ! unat (143 :: byte) = 0x03"
  "sbox_tbl ! unat (144 :: byte) = 0xE0" "sbox_tbl ! unat (145 :: byte) = 0x0F" "sbox_tbl ! unat (146 :: byte) = 0xEC"
  "sbox_tbl ! unat (147 :: byte) = 0xDE" "sbox_tbl ! unat (148 :: byte) = 0x7A" "sbox_tbl ! unat (149 :: byte) = 0x94"
  "sbox_tbl ! unat (150 :: byte) = 0xB0" "sbox_tbl ! unat (151 :: byte) = 0xBC" "sbox_tbl ! unat (152 :: byte) = 0xDC"
  "sbox_tbl ! unat (153 :: byte) = 0xE8" "sbox_tbl ! unat (154 :: byte) = 0x28" "sbox_tbl ! unat (155 :: byte) = 0x50"
  "sbox_tbl ! unat (156 :: byte) = 0x4E" "sbox_tbl ! unat (157 :: byte) = 0x33" "sbox_tbl ! unat (158 :: byte) = 0x0A"
  "sbox_tbl ! unat (159 :: byte) = 0x4A" "sbox_tbl ! unat (160 :: byte) = 0xA7" "sbox_tbl ! unat (161 :: byte) = 0x97"
  "sbox_tbl ! unat (162 :: byte) = 0x60" "sbox_tbl ! unat (163 :: byte) = 0x73" "sbox_tbl ! unat (164 :: byte) = 0x1E"
  "sbox_tbl ! unat (165 :: byte) = 0x00" "sbox_tbl ! unat (166 :: byte) = 0x62" "sbox_tbl ! unat (167 :: byte) = 0x44"
  "sbox_tbl ! unat (168 :: byte) = 0x1A" "sbox_tbl ! unat (169 :: byte) = 0xB8" "sbox_tbl ! unat (170 :: byte) = 0x38"
  "sbox_tbl ! unat (171 :: byte) = 0x82" "sbox_tbl ! unat (172 :: byte) = 0x64" "sbox_tbl ! unat (173 :: byte) = 0x9F"
  "sbox_tbl ! unat (174 :: byte) = 0x26" "sbox_tbl ! unat (175 :: byte) = 0x41" "sbox_tbl ! unat (176 :: byte) = 0xAD"
  "sbox_tbl ! unat (177 :: byte) = 0x45" "sbox_tbl ! unat (178 :: byte) = 0x46" "sbox_tbl ! unat (179 :: byte) = 0x92"
  "sbox_tbl ! unat (180 :: byte) = 0x27" "sbox_tbl ! unat (181 :: byte) = 0x5E" "sbox_tbl ! unat (182 :: byte) = 0x55"
  "sbox_tbl ! unat (183 :: byte) = 0x2F" "sbox_tbl ! unat (184 :: byte) = 0x8C" "sbox_tbl ! unat (185 :: byte) = 0xA3"
  "sbox_tbl ! unat (186 :: byte) = 0xA5" "sbox_tbl ! unat (187 :: byte) = 0x7D" "sbox_tbl ! unat (188 :: byte) = 0x69"
  "sbox_tbl ! unat (189 :: byte) = 0xD5" "sbox_tbl ! unat (190 :: byte) = 0x95" "sbox_tbl ! unat (191 :: byte) = 0x3B"
  "sbox_tbl ! unat (192 :: byte) = 0x07" "sbox_tbl ! unat (193 :: byte) = 0x58" "sbox_tbl ! unat (194 :: byte) = 0xB3"
  "sbox_tbl ! unat (195 :: byte) = 0x40" "sbox_tbl ! unat (196 :: byte) = 0x86" "sbox_tbl ! unat (197 :: byte) = 0xAC"
  "sbox_tbl ! unat (198 :: byte) = 0x1D" "sbox_tbl ! unat (199 :: byte) = 0xF7" "sbox_tbl ! unat (200 :: byte) = 0x30"
  "sbox_tbl ! unat (201 :: byte) = 0x37" "sbox_tbl ! unat (202 :: byte) = 0x6B" "sbox_tbl ! unat (203 :: byte) = 0xE4"
  "sbox_tbl ! unat (204 :: byte) = 0x88" "sbox_tbl ! unat (205 :: byte) = 0xD9" "sbox_tbl ! unat (206 :: byte) = 0xE7"
  "sbox_tbl ! unat (207 :: byte) = 0x89" "sbox_tbl ! unat (208 :: byte) = 0xE1" "sbox_tbl ! unat (209 :: byte) = 0x1B"
  "sbox_tbl ! unat (210 :: byte) = 0x83" "sbox_tbl ! unat (211 :: byte) = 0x49" "sbox_tbl ! unat (212 :: byte) = 0x4C"
  "sbox_tbl ! unat (213 :: byte) = 0x3F" "sbox_tbl ! unat (214 :: byte) = 0xF8" "sbox_tbl ! unat (215 :: byte) = 0xFE"
  "sbox_tbl ! unat (216 :: byte) = 0x8D" "sbox_tbl ! unat (217 :: byte) = 0x53" "sbox_tbl ! unat (218 :: byte) = 0xAA"
  "sbox_tbl ! unat (219 :: byte) = 0x90" "sbox_tbl ! unat (220 :: byte) = 0xCA" "sbox_tbl ! unat (221 :: byte) = 0xD8"
  "sbox_tbl ! unat (222 :: byte) = 0x85" "sbox_tbl ! unat (223 :: byte) = 0x61" "sbox_tbl ! unat (224 :: byte) = 0x20"
  "sbox_tbl ! unat (225 :: byte) = 0x71" "sbox_tbl ! unat (226 :: byte) = 0x67" "sbox_tbl ! unat (227 :: byte) = 0xA4"
  "sbox_tbl ! unat (228 :: byte) = 0x2D" "sbox_tbl ! unat (229 :: byte) = 0x2B" "sbox_tbl ! unat (230 :: byte) = 0x09"
  "sbox_tbl ! unat (231 :: byte) = 0x5B" "sbox_tbl ! unat (232 :: byte) = 0xCB" "sbox_tbl ! unat (233 :: byte) = 0x9B"
  "sbox_tbl ! unat (234 :: byte) = 0x25" "sbox_tbl ! unat (235 :: byte) = 0xD0" "sbox_tbl ! unat (236 :: byte) = 0xBE"
  "sbox_tbl ! unat (237 :: byte) = 0xE5" "sbox_tbl ! unat (238 :: byte) = 0x6C" "sbox_tbl ! unat (239 :: byte) = 0x52"
  "sbox_tbl ! unat (240 :: byte) = 0x59" "sbox_tbl ! unat (241 :: byte) = 0xA6" "sbox_tbl ! unat (242 :: byte) = 0x74"
  "sbox_tbl ! unat (243 :: byte) = 0xD2" "sbox_tbl ! unat (244 :: byte) = 0xE6" "sbox_tbl ! unat (245 :: byte) = 0xF4"
  "sbox_tbl ! unat (246 :: byte) = 0xB4" "sbox_tbl ! unat (247 :: byte) = 0xC0" "sbox_tbl ! unat (248 :: byte) = 0xD1"
  "sbox_tbl ! unat (249 :: byte) = 0x66" "sbox_tbl ! unat (250 :: byte) = 0xAF" "sbox_tbl ! unat (251 :: byte) = 0xC2"
  "sbox_tbl ! unat (252 :: byte) = 0x39" "sbox_tbl ! unat (253 :: byte) = 0x4B" "sbox_tbl ! unat (254 :: byte) = 0x63"
  "sbox_tbl ! unat (255 :: byte) = 0xB6"
  by (simp_all add: sbox_tbl_def)

lemma A_tbl_nth:
  "A_tbl ! 0 = 0x8e20faa72ba0b470" "A_tbl ! Numeral1 = 0x47107ddd9b505a38"
  "A_tbl ! 2 = 0xad08b0e0c3282d1c" "A_tbl ! 3 = 0xd8045870ef14980e"
  "A_tbl ! 4 = 0x6c022c38f90a4c07" "A_tbl ! 5 = 0x3601161cf205268d"
  "A_tbl ! 6 = 0x1b8e0b0e798c13c8" "A_tbl ! 7 = 0x83478b07b2468764"
  "A_tbl ! 8 = 0xa011d380818e8f40" "A_tbl ! 9 = 0x5086e740ce47c920"
  "A_tbl ! 10 = 0x2843fd2067adea10" "A_tbl ! 11 = 0x14aff010bdd87508"
  "A_tbl ! 12 = 0x0ad97808d06cb404" "A_tbl ! 13 = 0x05e23c0468365a02"
  "A_tbl ! 14 = 0x8c711e02341b2d01" "A_tbl ! 15 = 0x46b60f011a83988e"
  "A_tbl ! 16 = 0x90dab52a387ae76f" "A_tbl ! 17 = 0x486dd4151c3dfdb9"
  "A_tbl ! 18 = 0x24b86a840e90f0d2" "A_tbl ! 19 = 0x125c354207487869"
  "A_tbl ! 20 = 0x092e94218d243cba" "A_tbl ! 21 = 0x8a174a9ec8121e5d"
  "A_tbl ! 22 = 0x4585254f64090fa0" "A_tbl ! 23 = 0xaccc9ca9328a8950"
  "A_tbl ! 24 = 0x9d4df05d5f661451" "A_tbl ! 25 = 0xc0a878a0a1330aa6"
  "A_tbl ! 26 = 0x60543c50de970553" "A_tbl ! 27 = 0x302a1e286fc58ca7"
  "A_tbl ! 28 = 0x18150f14b9ec46dd" "A_tbl ! 29 = 0x0c84890ad27623e0"
  "A_tbl ! 30 = 0x0642ca05693b9f70" "A_tbl ! 31 = 0x0321658cba93c138"
  "A_tbl ! 32 = 0x86275df09ce8aaa8" "A_tbl ! 33 = 0x439da0784e745554"
  "A_tbl ! 34 = 0xafc0503c273aa42a" "A_tbl ! 35 = 0xd960281e9d1d5215"
  "A_tbl ! 36 = 0xe230140fc0802984" "A_tbl ! 37 = 0x71180a8960409a42"
  "A_tbl ! 38 = 0xb60c05ca30204d21" "A_tbl ! 39 = 0x5b068c651810a89e"
  "A_tbl ! 40 = 0x456c34887a3805b9" "A_tbl ! 41 = 0xac361a443d1c8cd2"
  "A_tbl ! 42 = 0x561b0d22900e4669" "A_tbl ! 43 = 0x2b838811480723ba"
  "A_tbl ! 44 = 0x9bcf4486248d9f5d" "A_tbl ! 45 = 0xc3e9224312c8c1a0"
  "A_tbl ! 46 = 0xeffa11af0964ee50" "A_tbl ! 47 = 0xf97d86d98a327728"
  "A_tbl ! 48 = 0xe4fa2054a80b329c" "A_tbl ! 49 = 0x727d102a548b194e"
  "A_tbl ! 50 = 0x39b008152acb8227" "A_tbl ! 51 = 0x9258048415eb419d"
  "A_tbl ! 52 = 0x492c024284fbaec0" "A_tbl ! 53 = 0xaa16012142f35760"
  "A_tbl ! 54 = 0x550b8e9e21f7a530" "A_tbl ! 55 = 0xa48b474f9ef5dc18"
  "A_tbl ! 56 = 0x70a6a56e2440598e" "A_tbl ! 57 = 0x3853dc371220a247"
  "A_tbl ! 58 = 0x1ca76e95091051ad" "A_tbl ! 59 = 0x0edd37c48a08a6d8"
  "A_tbl ! 60 = 0x07e095624504536c" "A_tbl ! 61 = 0x8d70c431ac02a736"
  "A_tbl ! 62 = 0xc83862965601dd1b" "A_tbl ! 63 = 0x641c314b2b8ee083"
  by (simp_all add: A_tbl_def)

lemma C_tbl_nth:
  "C_tbl ! 0 =
    [0xb1, 0x08, 0x5b, 0xda, 0x1e, 0xca, 0xda, 0xe9, 0xeb, 0xcb, 0x2f, 0x81, 0xc0, 0x65, 0x7c, 0x1f,
     0x2f, 0x6a, 0x76, 0x43, 0x2e, 0x45, 0xd0, 0x16, 0x71, 0x4e, 0xb8, 0x8d, 0x75, 0x85, 0xc4, 0xfc,
     0x4b, 0x7c, 0xe0, 0x91, 0x92, 0x67, 0x69, 0x01, 0xa2, 0x42, 0x2a, 0x08, 0xa4, 0x60, 0xd3, 0x15,
     0x05, 0x76, 0x74, 0x36, 0xcc, 0x74, 0x4d, 0x23, 0xdd, 0x80, 0x65, 0x59, 0xf2, 0xa6, 0x45, 0x07]"
  "C_tbl ! Numeral1 =
    [0x6f, 0xa3, 0xb5, 0x8a, 0xa9, 0x9d, 0x2f, 0x1a, 0x4f, 0xe3, 0x9d, 0x46, 0x0f, 0x70, 0xb5, 0xd7,
     0xf3, 0xfe, 0xea, 0x72, 0x0a, 0x23, 0x2b, 0x98, 0x61, 0xd5, 0x5e, 0x0f, 0x16, 0xb5, 0x01, 0x31,
     0x9a, 0xb5, 0x17, 0x6b, 0x12, 0xd6, 0x99, 0x58, 0x5c, 0xb5, 0x61, 0xc2, 0xdb, 0x0a, 0xa7, 0xca,
     0x55, 0xdd, 0xa2, 0x1b, 0xd7, 0xcb, 0xcd, 0x56, 0xe6, 0x79, 0x04, 0x70, 0x21, 0xb1, 0x9b, 0xb7]"
  "C_tbl ! 2 =
    [0xf5, 0x74, 0xdc, 0xac, 0x2b, 0xce, 0x2f, 0xc7, 0x0a, 0x39, 0xfc, 0x28, 0x6a, 0x3d, 0x84, 0x35,
     0x06, 0xf1, 0x5e, 0x5f, 0x52, 0x9c, 0x1f, 0x8b, 0xf2, 0xea, 0x75, 0x14, 0xb1, 0x29, 0x7b, 0x7b,
     0xd3, 0xe2, 0x0f, 0xe4, 0x90, 0x35, 0x9e, 0xb1, 0xc1, 0xc9, 0x3a, 0x37, 0x60, 0x62, 0xdb, 0x09,
     0xc2, 0xb6, 0xf4, 0x43, 0x86, 0x7a, 0xdb, 0x31, 0x99, 0x1e, 0x96, 0xf5, 0x0a, 0xba, 0x0a, 0xb2]"
  "C_tbl ! 3 =
    [0xef, 0x1f, 0xdf, 0xb3, 0xe8, 0x15, 0x66, 0xd2, 0xf9, 0x48, 0xe1, 0xa0, 0x5d, 0x71, 0xe4, 0xdd,
     0x48, 0x8e, 0x85, 0x7e, 0x33, 0x5c, 0x3c, 0x7d, 0x9d, 0x72, 0x1c, 0xad, 0x68, 0x5e, 0x35, 0x3f,
     0xa9, 0xd7, 0x2c, 0x82, 0xed, 0x03, 0xd6, 0x75, 0xd8, 0xb7, 0x13, 0x33, 0x93, 0x52, 0x03, 0xbe,
     0x34, 0x53, 0xea, 0xa1, 0x93, 0xe8, 0x37, 0xf1, 0x22, 0x0c, 0xbe, 0xbc, 0x84, 0xe3, 0xd1, 0x2e]"
  "C_tbl ! 4 =
    [0x4b, 0xea, 0x6b, 0xac, 0xad, 0x47, 0x47, 0x99, 0x9a, 0x3f, 0x41, 0x0c, 0x6c, 0xa9, 0x23, 0x63,
     0x7f, 0x15, 0x1c, 0x1f, 0x16, 0x86, 0x10, 0x4a, 0x35, 0x9e, 0x35, 0xd7, 0x80, 0x0f, 0xff, 0xbd,
     0xbf, 0xcd, 0x17, 0x47, 0x25, 0x3a, 0xf5, 0xa3, 0xdf, 0xff, 0x00, 0xb7, 0x23, 0x27, 0x1a, 0x16,
     0x7a, 0x56, 0xa2, 0x7e, 0xa9, 0xea, 0x63, 0xf5, 0x60, 0x17, 0x58, 0xfd, 0x7c, 0x6c, 0xfe, 0x57]"
  "C_tbl ! 5 =
    [0xae, 0x4f, 0xae, 0xae, 0x1d, 0x3a, 0xd3, 0xd9, 0x6f, 0xa4, 0xc3, 0x3b, 0x7a, 0x30, 0x39, 0xc0,
     0x2d, 0x66, 0xc4, 0xf9, 0x51, 0x42, 0xa4, 0x6c, 0x18, 0x7f, 0x9a, 0xb4, 0x9a, 0xf0, 0x8e, 0xc6,
     0xcf, 0xfa, 0xa6, 0xb7, 0x1c, 0x9a, 0xb7, 0xb4, 0x0a, 0xf2, 0x1f, 0x66, 0xc2, 0xbe, 0xc6, 0xb6,
     0xbf, 0x71, 0xc5, 0x72, 0x36, 0x90, 0x4f, 0x35, 0xfa, 0x68, 0x40, 0x7a, 0x46, 0x64, 0x7d, 0x6e]"
  "C_tbl ! 6 =
    [0xf4, 0xc7, 0x0e, 0x16, 0xee, 0xaa, 0xc5, 0xec, 0x51, 0xac, 0x86, 0xfe, 0xbf, 0x24, 0x09, 0x54,
     0x39, 0x9e, 0xc6, 0xc7, 0xe6, 0xbf, 0x87, 0xc9, 0xd3, 0x47, 0x3e, 0x33, 0x19, 0x7a, 0x93, 0xc9,
     0x09, 0x92, 0xab, 0xc5, 0x2d, 0x82, 0x2c, 0x37, 0x06, 0x47, 0x69, 0x83, 0x28, 0x4a, 0x05, 0x04,
     0x35, 0x17, 0x45, 0x4c, 0xa2, 0x3c, 0x4a, 0xf3, 0x88, 0x86, 0x56, 0x4d, 0x3a, 0x14, 0xd4, 0x93]"
  "C_tbl ! 7 =
    [0x9b, 0x1f, 0x5b, 0x42, 0x4d, 0x93, 0xc9, 0xa7, 0x03, 0xe7, 0xaa, 0x02, 0x0c, 0x6e, 0x41, 0x41,
     0x4e, 0xb7, 0xf8, 0x71, 0x9c, 0x36, 0xde, 0x1e, 0x89, 0xb4, 0x44, 0x3b, 0x4d, 0xdb, 0xc4, 0x9a,
     0xf4, 0x89, 0x2b, 0xcb, 0x92, 0x9b, 0x06, 0x90, 0x69, 0xd1, 0x8d, 0x2b, 0xd1, 0xa5, 0xc4, 0x2f,
     0x36, 0xac, 0xc2, 0x35, 0x59, 0x51, 0xa8, 0xd9, 0xa4, 0x7f, 0x0d, 0xd4, 0xbf, 0x02, 0xe7, 0x1e]"
  "C_tbl ! 8 =
    [0x37, 0x8f, 0x5a, 0x54, 0x16, 0x31, 0x22, 0x9b, 0x94, 0x4c, 0x9a, 0xd8, 0xec, 0x16, 0x5f, 0xde,
     0x3a, 0x7d, 0x3a, 0x1b, 0x25, 0x89, 0x42, 0x24, 0x3c, 0xd9, 0x55, 0xb7, 0xe0, 0x0d, 0x09, 0x84,
     0x80, 0x0a, 0x44, 0x0b, 0xdb, 0xb2, 0xce, 0xb1, 0x7b, 0x2b, 0x8a, 0x9a, 0xa6, 0x07, 0x9c, 0x54,
     0x0e, 0x38, 0xdc, 0x92, 0xcb, 0x1f, 0x2a, 0x60, 0x72, 0x61, 0x44, 0x51, 0x83, 0x23, 0x5a, 0xdb]"
  "C_tbl ! 9 =
    [0xab, 0xbe, 0xde, 0xa6, 0x80, 0x05, 0x6f, 0x52, 0x38, 0x2a, 0xe5, 0x48, 0xb2, 0xe4, 0xf3, 0xf3,
     0x89, 0x41, 0xe7, 0x1c, 0xff, 0x8a, 0x78, 0xdb, 0x1f, 0xff, 0xe1, 0x8a, 0x1b, 0x33, 0x61, 0x03,
     0x9f, 0xe7, 0x67, 0x02, 0xaf, 0x69, 0x33, 0x4b, 0x7a, 0x1e, 0x6c, 0x30, 0x3b, 0x76, 0x52, 0xf4,
     0x36, 0x98, 0xfa, 0xd1, 0x15, 0x3b, 0xb6, 0xc3, 0x74, 0xb4, 0xc7, 0xfb, 0x98, 0x45, 0x9c, 0xed]"
  "C_tbl ! 10 =
    [0x7b, 0xcd, 0x9e, 0xd0, 0xef, 0xc8, 0x89, 0xfb, 0x30, 0x02, 0xc6, 0xcd, 0x63, 0x5a, 0xfe, 0x94,
     0xd8, 0xfa, 0x6b, 0xbb, 0xeb, 0xab, 0x07, 0x61, 0x20, 0x01, 0x80, 0x21, 0x14, 0x84, 0x66, 0x79,
     0x8a, 0x1d, 0x71, 0xef, 0xea, 0x48, 0xb9, 0xca, 0xef, 0xba, 0xcd, 0x1d, 0x7d, 0x47, 0x6e, 0x98,
     0xde, 0xa2, 0x59, 0x4a, 0xc0, 0x6f, 0xd8, 0x5d, 0x6b, 0xca, 0xa4, 0xcd, 0x81, 0xf3, 0x2d, 0x1b]"
  "C_tbl ! 11 =
    [0x37, 0x8e, 0xe7, 0x67, 0xf1, 0x16, 0x31, 0xba, 0xd2, 0x13, 0x80, 0xb0, 0x04, 0x49, 0xb1, 0x7a,
     0xcd, 0xa4, 0x3c, 0x32, 0xbc, 0xdf, 0x1d, 0x77, 0xf8, 0x20, 0x12, 0xd4, 0x30, 0x21, 0x9f, 0x9b,
     0x5d, 0x80, 0xef, 0x9d, 0x18, 0x91, 0xcc, 0x86, 0xe7, 0x1d, 0xa4, 0xaa, 0x88, 0xe1, 0x28, 0x52,
     0xfa, 0xf4, 0x17, 0xd5, 0xd9, 0xb2, 0x1b, 0x99, 0x48, 0xbc, 0x92, 0x4a, 0xf1, 0x1b, 0xd7, 0x20]"
  by (simp_all add: C_tbl_def)

lemmas gost_eval =
  word_xor_num word_and_num word_bit_1 word_bit_0 xor_num.simps and_num.simps option.case option.map
  byte_mask_nonzero byte_mask_shift if_True if_False not_True_eq_False not_False_eq_True
  nth_eval upt_eval sbox_tbl_unat A_tbl_nth C_tbl_nth arith_simps pred_numeral_simps one_eval
  htobe64_eval be_split_def list.map unat_eval drop_bit_nat_eval take_bit_nat_eval take_bit_num_simps
  of_nat_eval SPL_def SPL_words.simps SPL_bytes.simps SPL_bits.simps xor_block.simps xor_buf_def
  E_def E_rounds.simps E_round.simps E_mix_def gN_def append.simps

text \<open>
  The three compressions of the empty message, 512-bit variant: the padded block under
  the zero initialisation vector, then the counter \<open>N = 0\<close>, then the checksum.
\<close>

lemma gN_empty_1: "gN block_zero block_zero block_pad_empty = empty512_h1"
  unfolding block_zero_def block_pad_empty_def empty512_h1_def
  by (simp only: gost_eval)

lemma gN_empty_2: "gN block_zero empty512_h1 block_zero = empty512_h2"
  unfolding block_zero_def empty512_h1_def empty512_h2_def
  by (simp only: gost_eval)

lemma gN_empty_3: "gN block_zero empty512_h2 block_pad_empty = empty512_digest"
  unfolding block_zero_def block_pad_empty_def empty512_h2_def empty512_digest_def
  by (simp only: gost_eval)

lemma replicate_block_zero: "replicate 64 0 = block_zero"
  by (simp add: block_zero_def numeral_eq_Suc)

lemma padded_empty: "padded [] = block_pad_empty"
  by (simp add: padded_def block_pad_empty_def numeral_eq_Suc)

lemma Add_block_zero: "Add block_zero 0 = block_zero"
  by (simp add: block_zero_def Add_def)

lemma block_add_block_zero: "block_add block_pad_empty block_zero = block_pad_empty"
  by (simp add: block_zero_def block_pad_empty_def block_add_def)

lemma length_block_zero: "length block_zero = 64"
  by (simp add: block_zero_def)

lemma length_empty512_digest: "length empty512_digest = 64"
  by (simp add: empty512_digest_def)

lemma memset_block_zero: "memset block_zero 0 0 64 = block_zero"
  by (simp add: length_block_zero replicate_block_zero)

lemma H_final_empty: "H_final block_zero block_zero block_zero block_pad_empty 0 = empty512_digest"
proof -
  have "H_final block_zero block_zero block_zero block_pad_empty 0
      = gN block_zero (gN block_zero (gN block_zero block_zero block_pad_empty) (Add block_zero 0))
          (block_add block_pad_empty block_zero)"
    by (simp add: H_final_def replicate_block_zero memset_block_zero)
  then show ?thesis
    by (simp only: Add_block_zero block_add_block_zero gN_empty_1 gN_empty_2 gN_empty_3)
qed

lemma hash512_empty: "GOSTR3411_2012_512 [] 0 = empty512_digest"
proof -
  have iv: "memcpy block_zero 0 block_zero 64 = block_zero"
    by (simp add: length_block_zero)
  have st2: "H_stage2 [] 0 block_zero block_zero block_zero block_zero
          = (block_zero, block_zero, block_zero, block_zero, 0)"
    by (subst H_stage2.simps) simp
  have st3: "H_stage3_block block_zero [] 0 = block_pad_empty"
    by (simp add: H_stage3_block_eq length_block_zero padded_empty)
  have out: "memcpy block_zero 0 empty512_digest 64 = empty512_digest"
    by (simp add: length_block_zero length_empty512_digest)
  show ?thesis
    by (simp only: GOSTR3411_2012_512_def H_def replicate_block_zero memset_block_zero iv st2
        prod.case st3 H_final_empty out)
qed

section \<open>The claims\<close>

subsection \<open>Hash\<close>

text \<open>
  C1, as amended. For both variants, for every context whose four blocks have 64 bytes
  and every input fed in one \<open>Update\<close> call or in several calls each of which, but for the
  last, has a length that is a multiple of 64: the digest \<open>Finish\<close> writes is the one-shot
  digest of the byte-reversed input, with its bytes in reverse order.
\<close>

theorem streaming_is_reversed_oneshot:
  assumes "ctx_ok ctx0" and "\<forall>c\<in>set (butlast chunks). 64 dvd length c"
  shows "streaming_digest b ctx0 chunks = rev (oneshot_digest b (rev (concat chunks)))"
  using assms by (rule streaming_rev_oneshot)

text \<open>An input of 66 bytes fed as a 64-byte chunk and a 2-byte chunk.\<close>

theorem streaming_is_reversed_oneshot_witness:
  "ctx_ok zero_ctx \<and> list_all (\<lambda>c. 64 dvd length c) (butlast [replicate 64 5, [1, 2]])
   \<and> streaming_digest True zero_ctx [replicate 64 5, [1, 2]]
       = rev (oneshot_digest True (rev (replicate 64 5 @ [1, 2])))"
proof -
  have ok: "ctx_ok zero_ctx"
    by (simp add: ctx_ok_def block_ok_def zero_ctx_def)
  have al: "\<forall>c\<in>set (butlast [replicate 64 5, [1, 2 :: byte]]). 64 dvd length c"
    by simp
  show ?thesis
    using streaming_is_reversed_oneshot [OF ok al, of True] ok by simp
qed

text \<open>
  C1 as stated fails: for the empty input, fed as one call of length \<open>0\<close>, the 512-bit
  streaming digest is the one-shot digest read backwards, and that digest is not a
  palindrome.
\<close>

theorem streaming_differs_from_oneshot:
  "streaming_digest True zero_ctx [[]] \<noteq> oneshot_digest True []"
proof -
  have ok: "ctx_ok zero_ctx"
    by (simp add: ctx_ok_def block_ok_def zero_ctx_def)
  have "streaming_digest True zero_ctx [[]] = rev (oneshot_digest True (rev (concat [[]])))"
    by (rule streaming_rev_oneshot [OF ok]) simp
  moreover have "oneshot_digest True [] = empty512_digest"
    by (simp add: oneshot_digest_def hash512_empty)
  moreover have "rev empty512_digest \<noteq> empty512_digest"
    by (simp add: empty512_digest_def)
  ultimately show ?thesis
    by simp
qed

text \<open>
  C8. For all blocks \<open>N\<close>, \<open>h\<close> and \<open>m\<close>, the compression step \<open>gN\<close> returns
  \<open>E(SPL(N \<oplus> h), m) \<oplus> h \<oplus> m\<close>, with the cipher \<open>E\<close> as the specification words it:
  state \<open>K0 \<oplus> M\<close> and key \<open>K0\<close> at the start, twelve rounds of \<open>state = SPL(state)\<close>,
  \<open>key = SPL(key \<oplus> C_[i])\<close>, \<open>state = key \<oplus> state\<close>, and the state as the result.
\<close>

theorem gN_is_spec_g:
  "gN N h m = spec_g N h m \<and> E K0 M = spec_E K0 M"
  by (simp add: gN_spec E_spec)



text \<open>
  C10. For every context and every buffer, \<open>Update\<close> with length \<open>0\<close> returns the context
  unchanged: \<open>h\<close>, \<open>N\<close>, the checksum, the pending block, the byte count and the variant
  flag.
\<close>

theorem Update_length_zero:
  "GOSTR3411_2012_CTX_Update buf 0 ctx = ctx"
  by (simp add: GOSTR3411_2012_CTX_Update_def)

subsection \<open>Signatures\<close>

text \<open>
  C2 fails on the code: \<open>Sign\<close> returns \<open>r = C\<^sub>x\<close> without reducing it modulo \<open>q\<close>. On the
  small curve, with private key \<open>3\<close>, digest \<open>2\<close> and the nonce \<open>k = 2\<close>, which
  \<open>BN_rand_range\<close> may draw, it returns \<open>(10, 6)\<close>, and \<open>10\<close> is not below \<open>q = 7\<close>.
\<close>

theorem Sign_r_not_below_q:
  "2 \<in> BN_rand_range (curve_q small_curve)
   \<and> Sign_with small_curve 2 3 2 0 = (10, 6)
   \<and> (10, 6) \<in> Sign small_curve 3 2 0
   \<and> \<not> 10 < curve_q small_curve"
proof -
  have k: "2 \<in> BN_rand_range (curve_q small_curve)"
    by (simp add: BN_rand_range_def small_curve_def)
  have s: "Sign_with small_curve 2 3 2 0 = (10, 6)"
    by code_simp
  have "(10, 6) \<in> Sign small_curve 3 2 0"
    unfolding Sign_def using k s by (metis image_eqI)
  with k s show ?thesis
    by (simp add: small_curve_def)
qed

text \<open>
  C3 fails on the code, from the same unreduced \<open>r\<close>: on the small curve the key pair
  \<open>d = 3\<close>, \<open>Q = 3 P = (7, 10)\<close> is valid, the digest \<open>2\<close> is invertible modulo \<open>7\<close>, and
  \<open>Verify\<close> rejects the signature \<open>(10, 6)\<close> that \<open>Sign\<close> returns for the nonce \<open>2\<close>.
\<close>

theorem Verify_rejects_signature_of_Sign:
  "MulP small_curve 3 = Point 7 10
   \<and> BN_mod_inverse 2 (curve_q small_curve) = Some 4
   \<and> Sign_with small_curve 2 3 2 0 = (10, 6)
   \<and> Verify small_curve (MulP small_curve 3) 2 10 6 = False"
  by code_simp

text \<open>
  C4 fails on the code: \<open>BN_rand_range\<close> draws from \<open>[0, q)\<close>, so \<open>k = 0\<close> is a possible
  nonce. With it, on the first parameter set, \<open>C\<close> is the point at infinity, \<open>r\<close> keeps
  the caller's value (here \<open>0\<close>) and \<open>Sign\<close> returns \<open>(0, 0)\<close>.
\<close>

theorem Sign_may_draw_zero:
  "0 \<in> BN_rand_range (curve_q (CreateGOSTR3410Curve CryptoProA))
   \<and> MulP (CreateGOSTR3410Curve CryptoProA) 0 = Infinity
   \<and> Sign_with (CreateGOSTR3410Curve CryptoProA) 0 5 7 0 = (0, 0)"
  by (simp add: BN_rand_range_def Sign_with_def MulP_def EC_POINT_mul_def GetXY_def
      EC_POINT_get_affine_coordinates_GFp_def BN_mod_mul_def BN_mod_add_def BN_nnmod_def
      CreateGOSTR3410Curve_def)

text \<open>
  C5 fails on the code where \<open>C\<close> has no x-coordinate: on the first parameter set, with
  the generator as public key and the invertible digest \<open>1\<close>, the pair \<open>r = 0\<close>, \<open>s = 0\<close>
  gives \<open>z1 = z2 = 0\<close>, \<open>C\<close> is the point at infinity, and \<open>Verify\<close> returns true.
\<close>

theorem Verify_accepts_zero_signature:
  "BN_mod_inverse (BN_mod 1 (curve_q (CreateGOSTR3410Curve CryptoProA))) (curve_q (CreateGOSTR3410Curve CryptoProA)) = Some 1
   \<and> Verify_point (CreateGOSTR3410Curve CryptoProA) (generator (CreateGOSTR3410Curve CryptoProA)) 1 0 0 = Infinity
   \<and> Verify (CreateGOSTR3410Curve CryptoProA) (generator (CreateGOSTR3410Curve CryptoProA)) 1 0 0 = True"
proof -
  let ?c = "CreateGOSTR3410Curve CryptoProA"
  have q: "1 < curve_q ?c"
    by (simp add: CreateGOSTR3410Curve_def)
  have m: "BN_mod 1 (curve_q ?c) = 1"
    using q by (simp add: BN_mod_def)
  have i: "BN_mod_inverse (BN_mod 1 (curve_q ?c)) (curve_q ?c) = Some 1"
    unfolding m using q by (rule BN_mod_inverse_one)
  have C: "Verify_point ?c (generator ?c) 1 0 0 = Infinity"
    using q by (simp add: Verify_point_def Let_def i m BN_mod_mul_def BN_nnmod_def BN_sub_def
        EC_POINT_mul_def)
  have "Verify ?c (generator ?c) 1 0 0 = True"
    using q by (simp add: Verify_def Let_def C GetXY_def EC_POINT_get_affine_coordinates_GFp_def
        BN_cmp_def BN_mod_def)
  with i C show ?thesis
    by (simp only: simp_thms)
qed

text \<open>
  C6 fails on the code: on the first parameter set the digest \<open>0\<close> has no inverse modulo
  \<open>q\<close>, and \<open>Verify\<close> returns true for \<open>r = 0\<close>, \<open>s = 0\<close>.
\<close>

theorem Verify_accepts_noninvertible_digest:
  "BN_mod_inverse (BN_mod 0 (curve_q (CreateGOSTR3410Curve CryptoProA))) (curve_q (CreateGOSTR3410Curve CryptoProA)) = None
   \<and> Verify (CreateGOSTR3410Curve CryptoProA) (generator (CreateGOSTR3410Curve CryptoProA)) 0 0 0 = True"
  by code_simp

text \<open>
  C7 fails on the code where \<open>r\<close> has no inverse modulo \<open>q\<close>. On the small curve
  \<open>r = 7\<close> is the x-coordinate of \<open>(7, 10)\<close>, so it decompresses, and \<open>Sign\<close> itself
  returns \<open>(7, 6)\<close> for the key \<open>3\<close>, the digest \<open>2\<close> and the nonce \<open>3\<close>. \<open>BN_mod_inverse\<close>
  fails on \<open>7\<close> modulo \<open>7\<close>, its result is not looked at, \<open>r1\<close> stays \<open>0\<close>, and
  \<open>RecoverPublicKey\<close> returns the point at infinity: neither no point nor the public
  key \<open>3 P = (7, 10)\<close>. For \<open>s = 5\<close> it does the same, where \<open>s P - h C = 5 P - 2 (3 P)\<close> is
  the finite point \<open>(6, 9)\<close>.
\<close>

theorem RecoverPublicKey_returns_infinity:
  "Sign_with small_curve 3 3 2 0 = (7, 6)
   \<and> MulP small_curve 3 = Point 7 10
   \<and> valid_x small_curve 7 False
   \<and> EC_POINT_set_compressed_coordinates_GFp small_curve 7 False = Some (Point 7 10)
   \<and> BN_mod_inverse 7 (curve_q small_curve) = None
   \<and> RecoverPublicKey small_curve 2 7 6 False = Some Infinity
   \<and> EC_POINT_add small_curve (ec_mul small_curve 5 (generator small_curve))
         (ec_neg small_curve (ec_mul small_curve 2 (Point 7 10))) = Point 6 9
   \<and> RecoverPublicKey small_curve 2 7 5 False = Some Infinity"
  by code_simp

end
